theory Spec2Isabelle
  imports Complex_Main "HOL-Library.Log_Nat"
begin

section \<open>Errors and the AudioGeneration object\<close>

text \<open>
  The model follows \<^verbatim>\<open>handAudioThingamabob.py\<close>, class \<^verbatim>\<open>AudioGeneration\<close>.
  Samples and parameters are Python/NumPy floats. The first model below takes them as
  exact reals: it is used where rounding does not bear on the statement (which
  exception is raised, which arrays are written, which fields change). The sections on
  binary floating point model the same lines of code in the machine's arithmetic, and
  the statements that depend on rounding are made there. Every exception the code can
  raise on the paths modelled is a value of \<open>error\<close>.
\<close>

datatype error = ZeroDivisionError | ValueError | OverflowError | CallbackStop | PortAudioError

record audio_generation =
  fs :: int
  freq :: real
  amplitude :: real
  running :: bool
  phase :: real
  roomSize :: real
  phase_offset :: int

text \<open>\<^verbatim>\<open>__init__\<close>: the field values a fresh object starts with.\<close>

definition init_audio :: audio_generation where
  "init_audio = \<lparr>fs = 16000, freq = 440, amplitude = 2 / 10, running = False,
     phase = 0, roomSize = 3 / 10, phase_offset = 0\<rparr>"

section \<open>Parameter updates\<close>

text \<open>
  The body of \<^verbatim>\<open>set_parameters\<close> as a function of its local constant \<open>alpha\<close>;
  \<^verbatim>\<open>set_parameters\<close> itself binds \<open>alpha = 0.2\<close>.
\<close>

definition set_parameters_with ::
  "real \<Rightarrow> audio_generation \<Rightarrow> real \<Rightarrow> real \<Rightarrow> real \<Rightarrow> audio_generation" where
  "set_parameters_with alpha self f a r =
     self\<lparr>freq := freq self * (1 - alpha) + f * alpha,
          amplitude := amplitude self * (1 - alpha) + a * alpha,
          roomSize := roomSize self * (1 - alpha) + r * alpha\<rparr>"


text \<open>The controller calling \<^verbatim>\<open>set_parameters\<close> \<open>n\<close> times with one target.\<close>

primrec repeat_set_parameters ::
  "real \<Rightarrow> nat \<Rightarrow> audio_generation \<Rightarrow> real \<Rightarrow> real \<Rightarrow> real \<Rightarrow> audio_generation" where
  "repeat_set_parameters alpha 0 self f a r = self"
| "repeat_set_parameters alpha (Suc n) self f a r =
     set_parameters_with alpha (repeat_set_parameters alpha n self f a r) f a r"

section \<open>NumPy slices on one-dimensional arrays\<close>

text \<open>
  Python's \<^verbatim>\<open>int(x)\<close> on a float truncates toward zero.
\<close>

definition py_int :: "real \<Rightarrow> int" where
  "py_int x = (if 0 \<le> x then \<lfloor>x\<rfloor> else \<lceil>x\<rceil>)"

text \<open>
  A slice bound \<open>k\<close> on an array of length \<open>n\<close>: a negative bound counts from the
  end, and every bound is clipped into \<open>0..n\<close>.
\<close>

definition slice_bound :: "int \<Rightarrow> nat \<Rightarrow> nat" where
  "slice_bound k n = (if k < 0 then nat (max (int n + k) 0) else min (nat k) n)"

text \<open>\<^verbatim>\<open>xs[:k]\<close>\<close>

definition slice_upto :: "'a list \<Rightarrow> int \<Rightarrow> 'a list" where
  "slice_upto xs k = take (slice_bound k (length xs)) xs"

text \<open>
  \<^verbatim>\<open>a[k:] = v\<close>: the slice and the value must have one shape, or the value has
  length 1 and is broadcast; anything else raises \<^verbatim>\<open>ValueError\<close>.
\<close>

definition assign_from :: "'a list \<Rightarrow> int \<Rightarrow> 'a list \<Rightarrow> error + 'a list" where
  "assign_from a k v =
     (let s = slice_bound k (length a); m = length a - s in
      if length v = m then Inr (take s a @ v)
      else if length v = 1 then Inr (take s a @ replicate m (hd v))
      else Inl ValueError)"

text \<open>\<^verbatim>\<open>np.clip(x, -1.0, 1.0)\<close> on one sample.\<close>

definition clip :: "real \<Rightarrow> real" where
  "clip x = min (max x (- 1)) 1"

section \<open>The reverb\<close>

text \<open>
  The loop of \<^verbatim>\<open>apply_reverb\<close> over the echo indices still to do, with
  \<^verbatim>\<open>reverb_signal\<close> as the accumulator. An exception leaves the loop at once.
\<close>

fun reverb_loop ::
  "real list \<Rightarrow> int \<Rightarrow> real \<Rightarrow> int list \<Rightarrow> real list \<Rightarrow> error + real list" where
  "reverb_loop signal delay_samples decay_factor [] reverb_signal = Inr reverb_signal"
| "reverb_loop signal delay_samples decay_factor (i # todo) reverb_signal =
     (let decay = decay_factor ^ nat i;
          echo = replicate (length signal) 0
      in if delay_samples * i < int (length signal) then
           (case assign_from echo (delay_samples * i)
                   (map (\<lambda>x. x * decay) (slice_upto signal (- delay_samples * i))) of
              Inl e \<Rightarrow> Inl e
            | Inr echo' \<Rightarrow>
                reverb_loop signal delay_samples decay_factor todo
                  (map2 (+) reverb_signal echo'))
         else reverb_loop signal delay_samples decay_factor todo reverb_signal)"

definition apply_reverb ::
  "audio_generation \<Rightarrow> real list \<Rightarrow> real \<Rightarrow> real \<Rightarrow> int \<Rightarrow> error + real list" where
  "apply_reverb self signal reverb_time decay_factor num_echoes =
     (if num_echoes = 0 then Inl ZeroDivisionError
      else
        let delay_samples = py_int ((reverb_time / real_of_int num_echoes) * real_of_int (fs self))
        in case reverb_loop signal delay_samples decay_factor [1..num_echoes] signal of
             Inl e \<Rightarrow> Inl e
           | Inr reverb_signal \<Rightarrow> Inr (map clip reverb_signal))"

text \<open>
  The reference result, in the words of the specification: the input plus, for each
  echo index \<open>i\<close> in \<open>1..numEchoes\<close> whose delay fits the block, the input shifted
  right by \<open>delaySamples * i\<close> and scaled by \<open>decayFactor ^ i\<close>, clamped to \<open>[-1, 1]\<close>.
  \<open>shifted signal k n\<close> is sample \<open>n\<close> of the signal shifted right by \<open>k\<close>: sample
  \<open>n - k\<close> of the signal where the block has one, zero elsewhere.
\<close>

definition shifted :: "real list \<Rightarrow> int \<Rightarrow> nat \<Rightarrow> real" where
  "shifted signal k n =
     (if k \<le> int n \<and> int n - k < int (length signal) then signal ! nat (int n - k) else 0)"

definition reverb_ref :: "int \<Rightarrow> real list \<Rightarrow> real \<Rightarrow> real \<Rightarrow> int \<Rightarrow> real list" where
  "reverb_ref sampleRate signal reverbTime decayFactor numEchoes =
     (let N = length signal;
          delaySamples = \<lfloor>(reverbTime / real_of_int numEchoes) * real_of_int sampleRate\<rfloor>
      in map (\<lambda>n. clip (signal ! n +
                (\<Sum>i\<leftarrow>[1..numEchoes].
                    if delaySamples * i < int N
                    then decayFactor ^ nat i * shifted signal (delaySamples * i) n else 0)))
           [0..<N])"

subsection \<open>The reverb on a store of arrays\<close>

text \<open>
  NumPy arrays are mutable objects. To speak about which arrays \<^verbatim>\<open>apply_reverb\<close>
  writes, the same function is modelled once more on a store: an array is an address,
  the store lists the arrays' contents, and a new array gets the next address.
  \<^verbatim>\<open>np.copy\<close>, \<^verbatim>\<open>np.zeros_like\<close>, \<^verbatim>\<open>signal[:-k] * decay\<close> and \<^verbatim>\<open>np.clip\<close> each
  make a new array; \<^verbatim>\<open>echo[k:] = ...\<close> and \<^verbatim>\<open>reverb_signal += echo\<close> write in place.
\<close>

type_synonym addr = nat
type_synonym store = "real list list"

definition new_array :: "store \<Rightarrow> real list \<Rightarrow> addr \<times> store" where
  "new_array h v = (length h, h @ [v])"

fun reverb_loop_store ::
  "addr \<Rightarrow> int \<Rightarrow> real \<Rightarrow> int list \<Rightarrow> addr \<Rightarrow> store \<Rightarrow> error option \<times> store" where
  "reverb_loop_store signal delay_samples decay_factor [] reverb_signal h = (None, h)"
| "reverb_loop_store signal delay_samples decay_factor (i # todo) reverb_signal h =
     (let decay = decay_factor ^ nat i;
          echo = fst (new_array h (replicate (length (h ! signal)) 0));
          h1 = snd (new_array h (replicate (length (h ! signal)) 0))
      in if delay_samples * i < int (length (h1 ! signal)) then
           (let scaled = fst (new_array h1
                  (map (\<lambda>x. x * decay) (slice_upto (h1 ! signal) (- delay_samples * i))));
                h2 = snd (new_array h1
                  (map (\<lambda>x. x * decay) (slice_upto (h1 ! signal) (- delay_samples * i))))
            in case assign_from (h2 ! echo) (delay_samples * i) (h2 ! scaled) of
                 Inl e \<Rightarrow> (Some e, h2)
               | Inr v \<Rightarrow>
                   (let h3 = h2[echo := v];
                        h4 = h3[reverb_signal := map2 (+) (h3 ! reverb_signal) (h3 ! echo)]
                    in reverb_loop_store signal delay_samples decay_factor todo reverb_signal h4))
         else reverb_loop_store signal delay_samples decay_factor todo reverb_signal h1)"

definition apply_reverb_store ::
  "audio_generation \<Rightarrow> addr \<Rightarrow> real \<Rightarrow> real \<Rightarrow> int \<Rightarrow> store \<Rightarrow> (error + addr) \<times> store" where
  "apply_reverb_store self signal reverb_time decay_factor num_echoes h =
     (let reverb_signal = fst (new_array h (h ! signal));
          h1 = snd (new_array h (h ! signal))
      in if num_echoes = 0 then (Inl ZeroDivisionError, h1)
         else
           let delay_samples =
                 py_int ((reverb_time / real_of_int num_echoes) * real_of_int (fs self))
           in case reverb_loop_store signal delay_samples decay_factor [1..num_echoes]
                     reverb_signal h1 of
                (Some e, h2) \<Rightarrow> (Inl e, h2)
              | (None, h2) \<Rightarrow>
                  (Inr (fst (new_array h2 (map clip (h2 ! reverb_signal)))),
                   snd (new_array h2 (map clip (h2 ! reverb_signal)))))"

section \<open>The audio callback\<close>

text \<open>
  The raw sine block of \<^verbatim>\<open>callback\<close>:
  \<^verbatim>\<open>t = (np.arange(frames) + self.phase_offset) / self.fs\<close> and
  \<^verbatim>\<open>self.amplitude * np.sin(2 * np.pi * self.freq * t)\<close>.
\<close>

definition raw_sine :: "audio_generation \<Rightarrow> nat \<Rightarrow> real list" where
  "raw_sine self frames =
     map (\<lambda>i. amplitude self *
            sin (2 * pi * freq self *
                 ((real i + real_of_int (phase_offset self)) / real_of_int (fs self))))
       [0..<frames]"

text \<open>\<^verbatim>\<open>self.phase_offset += frames; self.phase_offset %= self.fs\<close>\<close>

definition advance_phase :: "audio_generation \<Rightarrow> nat \<Rightarrow> audio_generation" where
  "advance_phase self frames =
     self\<lparr>phase_offset := (phase_offset self + int frames) mod fs self\<rparr>"

text \<open>
  One call of \<^verbatim>\<open>callback\<close> for a block of \<open>frames\<close> samples: the block written
  to \<^verbatim>\<open>outdata\<close> and the object afterwards, or the exception that leaves the
  callback (the object is then as before: the phase is advanced last).
\<close>

definition callback :: "audio_generation \<Rightarrow> nat \<Rightarrow> error + real list \<times> audio_generation" where
  "callback self frames =
     (if \<not> running self then Inl CallbackStop
      else case apply_reverb self (raw_sine self frames) (roomSize self) (6 / 10) 5 of
             Inl e \<Rightarrow> Inl e
           | Inr samples \<Rightarrow> Inr (samples, advance_phase self frames))"

section \<open>Starting and stopping\<close>

text \<open>
  \<^verbatim>\<open>start_audio\<close> starts a thread that runs \<^verbatim>\<open>audioGen\<close>. The process is the
  object together with the audio threads started so far, each with how far it got:
  started, inside \<^verbatim>\<open>with sd.OutputStream(...)\<close>, ended by an exception, or returned.
\<close>

datatype thread_state = Started | Streaming | Raised error | Returned

record process =
  audio :: audio_generation
  threads :: "thread_state list"

definition init_process :: process where
  "init_process = \<lparr>audio = init_audio, threads = []\<rparr>"

definition start_audio :: "process \<Rightarrow> process" where
  "start_audio p =
     (if \<not> running (audio p)
      then p\<lparr>audio := (audio p)\<lparr>running := True\<rparr>, threads := threads p @ [Started]\<rparr>
      else p)"

definition stop_audio :: "process \<Rightarrow> process" where
  "stop_audio p = p\<lparr>audio := (audio p)\<lparr>running := False\<rparr>\<rparr>"

text \<open>
  Thread \<open>t\<close> entering \<^verbatim>\<open>with sd.OutputStream(...)\<close> in \<^verbatim>\<open>audioGen\<close>. When the
  device cannot be opened the constructor raises; \<^verbatim>\<open>audioGen\<close> has no handler, so
  the exception ends the thread and nothing else runs.
\<close>

definition audioGen_open :: "bool \<Rightarrow> nat \<Rightarrow> process \<Rightarrow> process" where
  "audioGen_open device_opens t p =
     (if device_opens then p\<lparr>threads := (threads p)[t := Streaming]\<rparr>
      else p\<lparr>threads := (threads p)[t := Raised PortAudioError]\<rparr>)"

text \<open>
  One round of the loop inside the \<^verbatim>\<open>with\<close> block of thread \<open>t\<close>: it leaves the
  block, and the thread returns, once \<^verbatim>\<open>running\<close> is false.
\<close>

definition audioGen_poll :: "nat \<Rightarrow> process \<Rightarrow> process" where
  "audioGen_poll t p =
     (if \<not> running (audio p) then p\<lparr>threads := (threads p)[t := Returned]\<rparr> else p)"

section \<open>Binary floating point\<close>

text \<open>
  A Python float is an IEEE binary64 value, a NumPy \<^verbatim>\<open>float32\<close> sample a binary32
  value: a finite number, an infinity (the flag is its sign, true for negative) or
  not-a-number. A finite value is modelled by the real number it denotes, so the two
  zeros are one value; the code never divides by a computed zero or reads a sign of
  zero, the only places where they differ.
\<close>

datatype pyfloat = Finite real | Infinite bool | NaN

record float_format =
  precision :: nat
  emin :: int
  emax :: int

text \<open>
  \<open>precision\<close> is the number of significand bits, \<open>2 ^ emin\<close> the spacing of the
  subnormal numbers, \<open>2 ^ emax\<close> the least magnitude that overflows.
\<close>

definition binary64 :: float_format where
  "binary64 = \<lparr>precision = 53, emin = - 1074, emax = 1024\<rparr>"

definition binary32 :: float_format where
  "binary32 = \<lparr>precision = 24, emin = - 149, emax = 128\<rparr>"

text \<open>The exponent of a non-zero real: \<open>2 ^ ilog2 x \<le> |x| < 2 ^ (ilog2 x + 1)\<close>.\<close>

definition ilog2 :: "real \<Rightarrow> int" where
  "ilog2 x = (if 1 \<le> \<bar>x\<bar> then bitlen \<lfloor>\<bar>x\<bar>\<rfloor> - 1 else - bitlen (\<lceil>1 / \<bar>x\<bar>\<rceil> - 1))"

text \<open>Rounding to the nearest integer, a tie to the even one.\<close>

definition round_even :: "real \<Rightarrow> int" where
  "round_even m =
     (let f = \<lfloor>m\<rfloor>; r = m - of_int f
      in if r < 1 / 2 then f else if 1 / 2 < r then f + 1 else if even f then f else f + 1)"

text \<open>
  Rounding a real to the nearest number of the format (ties to even), before the
  overflow check: the significand has \<open>precision\<close> bits, or fewer below the normal
  range.
\<close>

definition round_to :: "float_format \<Rightarrow> real \<Rightarrow> real" where
  "round_to fmt x =
     (if x = 0 then 0
      else let e = max (ilog2 x - int (precision fmt) + 1) (emin fmt)
           in of_int (round_even (x / 2 powi e)) * 2 powi e)"

text \<open>The result of an arithmetic operation whose exact value is \<open>x\<close>.\<close>

definition rnd :: "float_format \<Rightarrow> real \<Rightarrow> pyfloat" where
  "rnd fmt x =
     (let y = round_to fmt x
      in if 2 powi emax fmt \<le> \<bar>y\<bar> then Infinite (x < 0) else Finite y)"

fun fneg :: "pyfloat \<Rightarrow> pyfloat" where
  "fneg NaN = NaN"
| "fneg (Infinite a) = Infinite (\<not> a)"
| "fneg (Finite x) = Finite (- x)"

fun fadd :: "float_format \<Rightarrow> pyfloat \<Rightarrow> pyfloat \<Rightarrow> pyfloat" where
  "fadd fmt NaN y = NaN"
| "fadd fmt x NaN = NaN"
| "fadd fmt (Infinite a) (Infinite b) = (if a = b then Infinite a else NaN)"
| "fadd fmt (Infinite a) (Finite y) = Infinite a"
| "fadd fmt (Finite x) (Infinite b) = Infinite b"
| "fadd fmt (Finite x) (Finite y) = rnd fmt (x + y)"

definition fsub :: "float_format \<Rightarrow> pyfloat \<Rightarrow> pyfloat \<Rightarrow> pyfloat" where
  "fsub fmt x y = fadd fmt x (fneg y)"

fun fmul :: "float_format \<Rightarrow> pyfloat \<Rightarrow> pyfloat \<Rightarrow> pyfloat" where
  "fmul fmt NaN y = NaN"
| "fmul fmt x NaN = NaN"
| "fmul fmt (Infinite a) (Infinite b) = Infinite (a \<noteq> b)"
| "fmul fmt (Infinite a) (Finite y) = (if y = 0 then NaN else Infinite (a \<noteq> (y < 0)))"
| "fmul fmt (Finite x) (Infinite b) = (if x = 0 then NaN else Infinite (b \<noteq> (x < 0)))"
| "fmul fmt (Finite x) (Finite y) = rnd fmt (x * y)"

subsection \<open>Python's float operations\<close>

text \<open>
  An \<^verbatim>\<open>int\<close> operand of a float operation is converted first; an \<^verbatim>\<open>int\<close> too large
  for a float raises \<^verbatim>\<open>OverflowError\<close>.
\<close>

definition float_of_int :: "int \<Rightarrow> error + pyfloat" where
  "float_of_int n =
     (let y = round_to binary64 (of_int n)
      in if 2 powi emax binary64 \<le> \<bar>y\<bar> then Inl OverflowError else Inr (Finite y))"

text \<open>\<^verbatim>\<open>x / y\<close> on floats: a zero divisor raises, whatever the dividend.\<close>

fun truediv :: "pyfloat \<Rightarrow> pyfloat \<Rightarrow> error + pyfloat" where
  "truediv x (Finite y) =
     (if y = 0 then Inl ZeroDivisionError
      else case x of
             NaN \<Rightarrow> Inr NaN
           | Infinite a \<Rightarrow> Inr (Infinite (a \<noteq> (y < 0)))
           | Finite x' \<Rightarrow> Inr (rnd binary64 (x' / y)))"
| "truediv NaN y = Inr NaN"
| "truediv x NaN = Inr NaN"
| "truediv (Infinite a) (Infinite b) = Inr NaN"
| "truediv (Finite x) (Infinite b) = Inr (Finite 0)"

text \<open>\<^verbatim>\<open>int(x)\<close> on a float: truncation, \<^verbatim>\<open>ValueError\<close> on not-a-number,
  \<^verbatim>\<open>OverflowError\<close> on an infinity.\<close>

fun int_of_float :: "pyfloat \<Rightarrow> error + int" where
  "int_of_float NaN = Inl ValueError"
| "int_of_float (Infinite a) = Inl OverflowError"
| "int_of_float (Finite x) = Inr (py_int x)"

text \<open>
  \<^verbatim>\<open>x ** i\<close> for a float \<open>x\<close> and an \<^verbatim>\<open>int\<close> \<open>i\<close>, computed by the C library's
  \<^verbatim>\<open>pow\<close> and taken here as correctly rounded (the powers evaluated below are exact);
  a result that overflows raises \<^verbatim>\<open>OverflowError\<close>, zero to a negative power
  \<^verbatim>\<open>ZeroDivisionError\<close>.
\<close>

fun pow64 :: "pyfloat \<Rightarrow> int \<Rightarrow> error + pyfloat" where
  "pow64 NaN i = (if i = 0 then Inr (Finite 1) else Inr NaN)"
| "pow64 (Infinite a) i =
     (if i = 0 then Inr (Finite 1) else if i < 0 then Inr (Finite 0)
      else Inr (Infinite (a \<and> odd i)))"
| "pow64 (Finite x) i =
     (if x = 0 \<and> i < 0 then Inl ZeroDivisionError
      else let y = round_to binary64 (x powi i)
           in if 2 powi emax binary64 \<le> \<bar>y\<bar> then Inl OverflowError else Inr (Finite y))"

section \<open>The parameter update in binary64\<close>

text \<open>
  Lines 61 to 64 of \<^verbatim>\<open>set_parameters\<close> on Python floats: \<^verbatim>\<open>alpha = 0.2\<close> is the
  double nearest to 0.2, and each field becomes
  \<^verbatim>\<open>current * (1 - alpha) + target * alpha\<close> with every operation rounded.
\<close>

definition alpha64 :: pyfloat where
  "alpha64 = rnd binary64 (2 / 10)"

definition smoothed_f64 :: "pyfloat \<Rightarrow> pyfloat \<Rightarrow> pyfloat" where
  "smoothed_f64 current target =
     fadd binary64 (fmul binary64 current (fsub binary64 (Finite 1) alpha64))
                   (fmul binary64 target alpha64)"

record parameters_f64 =
  freq_f64 :: pyfloat
  amplitude_f64 :: pyfloat
  roomSize_f64 :: pyfloat

text \<open>The three float fields of a fresh object: 440.0, 0.2 and 0.3.\<close>

definition init_f64 :: parameters_f64 where
  "init_f64 = \<lparr>freq_f64 = rnd binary64 440, amplitude_f64 = rnd binary64 (2 / 10),
     roomSize_f64 = rnd binary64 (3 / 10)\<rparr>"

definition set_parameters_f64 ::
  "parameters_f64 \<Rightarrow> pyfloat \<Rightarrow> pyfloat \<Rightarrow> pyfloat \<Rightarrow> parameters_f64" where
  "set_parameters_f64 self f a r =
     self\<lparr>freq_f64 := smoothed_f64 (freq_f64 self) f,
          amplitude_f64 := smoothed_f64 (amplitude_f64 self) a,
          roomSize_f64 := smoothed_f64 (roomSize_f64 self) r\<rparr>"

text \<open>
  What one update does to a field with finite value \<open>x\<close> and target \<open>t\<close>, up to
  rounding. The allowance is 8 units of roundoff of the larger magnitude, plus the
  underflow term. The new value \<open>v\<close> is finite; its distance to the target is at most
  4/5 of the old one plus the allowance; and where the old distance exceeds 5
  allowances the new value is strictly closer and on the same side of the target.
\<close>

definition allowance :: "real \<Rightarrow> real \<Rightarrow> real" where
  "allowance x t = max \<bar>x\<bar> \<bar>t\<bar> / 2 ^ 50 + 1 / 2 ^ 1073"

definition smoothed_toward :: "real \<Rightarrow> real \<Rightarrow> pyfloat \<Rightarrow> bool" where
  "smoothed_toward x t v =
     (case v of
        Finite y \<Rightarrow>
          \<bar>y - t\<bar> \<le> 4 / 5 * \<bar>x - t\<bar> + allowance x t
          \<and> (5 * allowance x t < \<bar>x - t\<bar> \<longrightarrow>
                \<bar>y - t\<bar> < \<bar>x - t\<bar> \<and> (x < t \<longrightarrow> y < t) \<and> (t < x \<longrightarrow> t < y))
      | _ \<Rightarrow> False)"

section \<open>The reverb in machine arithmetic\<close>

text \<open>
  Line 71 on Python floats:
  \<^verbatim>\<open>delay_samples = int((reverb_time / num_echoes) * self.fs)\<close>, with both \<^verbatim>\<open>int\<close>
  operands converted, the quotient and the product rounded to binary64, and the
  product truncated.
\<close>

definition delay_samples_f64 :: "pyfloat \<Rightarrow> int \<Rightarrow> int \<Rightarrow> error + int" where
  "delay_samples_f64 reverb_time num_echoes sample_rate =
     (case float_of_int num_echoes of
        Inl e \<Rightarrow> Inl e
      | Inr n \<Rightarrow>
          (case truediv reverb_time n of
             Inl e \<Rightarrow> Inl e
           | Inr q \<Rightarrow>
               (case float_of_int sample_rate of
                  Inl e \<Rightarrow> Inl e
                | Inr r \<Rightarrow> int_of_float (fmul binary64 q r))))"

text \<open>
  The arithmetic the loop uses on the block is a parameter of the model: the element
  type of the array with the element written by \<^verbatim>\<open>np.zeros_like\<close>, the element
  operation of \<^verbatim>\<open>signal[...] * decay\<close>, of \<^verbatim>\<open>reverb_signal += echo\<close> and of
  \<^verbatim>\<open>np.clip(..., -1.0, 1.0)\<close>, and the power \<^verbatim>\<open>decay_factor ** i\<close>. What is proved
  for every such arithmetic holds for the one the machine has.
\<close>

record 'a block_arith =
  np_zero :: 'a
  np_scale :: "'a \<Rightarrow> pyfloat \<Rightarrow> 'a"
  np_add :: "'a \<Rightarrow> 'a \<Rightarrow> 'a"
  np_clip :: "'a \<Rightarrow> 'a"
  py_pow :: "pyfloat \<Rightarrow> int \<Rightarrow> error + pyfloat"

fun reverb_loop_fp ::
  "'a block_arith \<Rightarrow> 'a list \<Rightarrow> int \<Rightarrow> pyfloat \<Rightarrow> int list \<Rightarrow> 'a list \<Rightarrow> error + 'a list" where
  "reverb_loop_fp A signal delay_samples decay_factor [] reverb_signal = Inr reverb_signal"
| "reverb_loop_fp A signal delay_samples decay_factor (i # todo) reverb_signal =
     (case py_pow A decay_factor i of
        Inl e \<Rightarrow> Inl e
      | Inr decay \<Rightarrow>
          (let echo = replicate (length signal) (np_zero A)
           in if delay_samples * i < int (length signal) then
                (case assign_from echo (delay_samples * i)
                        (map (\<lambda>x. np_scale A x decay)
                           (slice_upto signal (- delay_samples * i))) of
                   Inl e \<Rightarrow> Inl e
                 | Inr echo' \<Rightarrow>
                     reverb_loop_fp A signal delay_samples decay_factor todo
                       (map2 (np_add A) reverb_signal echo'))
              else reverb_loop_fp A signal delay_samples decay_factor todo reverb_signal))"

definition apply_reverb_fp ::
  "'a block_arith \<Rightarrow> audio_generation \<Rightarrow> 'a list \<Rightarrow> pyfloat \<Rightarrow> pyfloat \<Rightarrow> int
     \<Rightarrow> error + 'a list" where
  "apply_reverb_fp A self signal reverb_time decay_factor num_echoes =
     (case delay_samples_f64 reverb_time num_echoes (fs self) of
        Inl e \<Rightarrow> Inl e
      | Inr delay_samples \<Rightarrow>
          (case reverb_loop_fp A signal delay_samples decay_factor [1..num_echoes] signal of
             Inl e \<Rightarrow> Inl e
           | Inr reverb_signal \<Rightarrow> Inr (map (np_clip A) reverb_signal)))"

text \<open>
  The arithmetic of a \<^verbatim>\<open>float32\<close> block: the Python float \<^verbatim>\<open>decay\<close> is converted
  to binary32 and the product and the sum are rounded to binary32; \<^verbatim>\<open>np.clip\<close> keeps
  not-a-number.
\<close>

fun to_float32 :: "pyfloat \<Rightarrow> pyfloat" where
  "to_float32 (Finite x) = rnd binary32 x"
| "to_float32 v = v"

fun clip_float :: "pyfloat \<Rightarrow> pyfloat" where
  "clip_float NaN = NaN"
| "clip_float (Infinite a) = Finite (if a then - 1 else 1)"
| "clip_float (Finite x) = Finite (clip x)"

definition numpy_float32 :: "pyfloat block_arith" where
  "numpy_float32 =
     \<lparr>np_zero = Finite 0,
      np_scale = (\<lambda>x decay. fmul binary32 x (to_float32 decay)),
      np_add = fadd binary32,
      np_clip = clip_float,
      py_pow = pow64\<rparr>"

text \<open>
  The reference result in the same arithmetic, sample by sample: the input sample,
  then for each echo index \<open>i\<close> in \<open>1..numEchoes\<close> whose delay fits the block, in this
  order, the sample \<open>delaySamples * i\<close> places earlier scaled by \<open>decay i\<close> (zero before
  the shift boundary) added to it, the sum clipped.
\<close>

definition echo_sample :: "'a block_arith \<Rightarrow> 'a list \<Rightarrow> int \<Rightarrow> pyfloat \<Rightarrow> nat \<Rightarrow> 'a" where
  "echo_sample A signal k decay n =
     (if k \<le> int n then np_scale A (signal ! nat (int n - k)) decay else np_zero A)"

definition reverb_ref_fp ::
  "'a block_arith \<Rightarrow> 'a list \<Rightarrow> int \<Rightarrow> (int \<Rightarrow> pyfloat) \<Rightarrow> int \<Rightarrow> 'a list" where
  "reverb_ref_fp A signal delaySamples decay numEchoes =
     map (\<lambda>n. np_clip A
            (foldl (np_add A) (signal ! n)
               (map (\<lambda>i. echo_sample A signal (delaySamples * i) (decay i) n)
                  (filter (\<lambda>i. delaySamples * i < int (length signal)) [1..numEchoes]))))
       [0..<length signal]"

section \<open>Properties of the parameter updates\<close>


text \<open>
  Repeating the update with one target: after \<open>n\<close> calls each field is the target
  plus \<open>(1 - alpha) ^ n\<close> times its first distance to the target.
\<close>

lemma repeat_freq:
  "freq (repeat_set_parameters alpha n self f a r) = f + (1 - alpha) ^ n * (freq self - f)"
proof (induction n)
  case 0
  show ?case by simp
next
  case (Suc n)
  have "freq (repeat_set_parameters alpha (Suc n) self f a r)
      = f + (1 - alpha) * (freq (repeat_set_parameters alpha n self f a r) - f)"
    by (simp add: set_parameters_with_def algebra_simps)
  also have "\<dots> = f + (1 - alpha) * ((1 - alpha) ^ n * (freq self - f))"
    by (simp only: Suc.IH add_diff_cancel_left')
  finally show ?case by (simp add: mult.assoc)
qed

lemma repeat_amplitude:
  "amplitude (repeat_set_parameters alpha n self f a r)
     = a + (1 - alpha) ^ n * (amplitude self - a)"
proof (induction n)
  case 0
  show ?case by simp
next
  case (Suc n)
  have "amplitude (repeat_set_parameters alpha (Suc n) self f a r)
      = a + (1 - alpha) * (amplitude (repeat_set_parameters alpha n self f a r) - a)"
    by (simp add: set_parameters_with_def algebra_simps)
  also have "\<dots> = a + (1 - alpha) * ((1 - alpha) ^ n * (amplitude self - a))"
    by (simp only: Suc.IH add_diff_cancel_left')
  finally show ?case by (simp add: mult.assoc)
qed

lemma repeat_roomSize:
  "roomSize (repeat_set_parameters alpha n self f a r)
     = r + (1 - alpha) ^ n * (roomSize self - r)"
proof (induction n)
  case 0
  show ?case by simp
next
  case (Suc n)
  have "roomSize (repeat_set_parameters alpha (Suc n) self f a r)
      = r + (1 - alpha) * (roomSize (repeat_set_parameters alpha n self f a r) - r)"
    by (simp add: set_parameters_with_def algebra_simps)
  also have "\<dots> = r + (1 - alpha) * ((1 - alpha) ^ n * (roomSize self - r))"
    by (simp only: Suc.IH add_diff_cancel_left')
  finally show ?case by (simp add: mult.assoc)
qed

lemma geometric_step:
  fixes alpha x0 t :: real
  assumes "0 < alpha" "alpha \<le> 1"
  defines "x \<equiv> \<lambda>n. t + (1 - alpha) ^ n * (x0 - t)"
  shows "\<bar>x (Suc n) - t\<bar> \<le> \<bar>x n - t\<bar>"
    and "x n \<le> t \<longrightarrow> x (Suc n) \<le> t"
    and "t \<le> x n \<longrightarrow> t \<le> x (Suc n)"
    and "x \<longlonglongrightarrow> t"
proof -
  have q: "0 \<le> 1 - alpha" "1 - alpha < 1" using assms by simp_all
  have step: "x (Suc n) - t = (1 - alpha) * (x n - t)" for n
    by (simp add: x_def)
  show "\<bar>x (Suc n) - t\<bar> \<le> \<bar>x n - t\<bar>"
    unfolding step abs_mult using q by (simp add: mult_left_le_one_le)
  show "x n \<le> t \<longrightarrow> x (Suc n) \<le> t"
  proof
    assume "x n \<le> t"
    then have "(1 - alpha) * (x n - t) \<le> 0" using q by (simp add: mult_nonneg_nonpos)
    then show "x (Suc n) \<le> t" using step [of n] by linarith
  qed
  show "t \<le> x n \<longrightarrow> t \<le> x (Suc n)"
  proof
    assume "t \<le> x n"
    then have "0 \<le> (1 - alpha) * (x n - t)" using q by simp
    then show "t \<le> x (Suc n)" using step [of n] by linarith
  qed
  have p: "(\<lambda>n. (1 - alpha) ^ n) \<longlonglongrightarrow> 0"
    by (rule LIMSEQ_realpow_zero [OF q])
  have "(\<lambda>n. t + (1 - alpha) ^ n * (x0 - t)) \<longlonglongrightarrow> t + 0 * (x0 - t)"
    by (intro tendsto_add tendsto_mult tendsto_const p)
  then show "x \<longlonglongrightarrow> t" by (simp add: x_def)
qed

text \<open>
  Over exact reals, that is for the update rule without rounding, and for \<open>alpha\<close> in
  \<open>(0, 1]\<close>: repeating the update with one target moves each field monotonically
  toward the target, never across it, and the fields converge to it. The code computes
  in binary64, where this holds only up to rounding; see the section on the parameter
  update in binary64.
\<close>

lemma exact_smoothing_monotone:
  assumes "0 < alpha" "alpha \<le> 1"
  shows "(\<bar>freq (repeat_set_parameters alpha (Suc n) self f a r) - f\<bar>
            \<le> \<bar>freq (repeat_set_parameters alpha n self f a r) - f\<bar>
       \<and> (freq (repeat_set_parameters alpha n self f a r) \<le> f
            \<longrightarrow> freq (repeat_set_parameters alpha (Suc n) self f a r) \<le> f)
       \<and> (f \<le> freq (repeat_set_parameters alpha n self f a r)
            \<longrightarrow> f \<le> freq (repeat_set_parameters alpha (Suc n) self f a r))
       \<and> (\<lambda>k. freq (repeat_set_parameters alpha k self f a r)) \<longlonglongrightarrow> f)
     \<and> (\<bar>amplitude (repeat_set_parameters alpha (Suc n) self f a r) - a\<bar>
            \<le> \<bar>amplitude (repeat_set_parameters alpha n self f a r) - a\<bar>
       \<and> (amplitude (repeat_set_parameters alpha n self f a r) \<le> a
            \<longrightarrow> amplitude (repeat_set_parameters alpha (Suc n) self f a r) \<le> a)
       \<and> (a \<le> amplitude (repeat_set_parameters alpha n self f a r)
            \<longrightarrow> a \<le> amplitude (repeat_set_parameters alpha (Suc n) self f a r))
       \<and> (\<lambda>k. amplitude (repeat_set_parameters alpha k self f a r)) \<longlonglongrightarrow> a)
     \<and> (\<bar>roomSize (repeat_set_parameters alpha (Suc n) self f a r) - r\<bar>
            \<le> \<bar>roomSize (repeat_set_parameters alpha n self f a r) - r\<bar>
       \<and> (roomSize (repeat_set_parameters alpha n self f a r) \<le> r
            \<longrightarrow> roomSize (repeat_set_parameters alpha (Suc n) self f a r) \<le> r)
       \<and> (r \<le> roomSize (repeat_set_parameters alpha n self f a r)
            \<longrightarrow> r \<le> roomSize (repeat_set_parameters alpha (Suc n) self f a r))
       \<and> (\<lambda>k. roomSize (repeat_set_parameters alpha k self f a r)) \<longlonglongrightarrow> r)"
  unfolding repeat_freq repeat_amplitude repeat_roomSize
  using geometric_step [OF assms] by blast

section \<open>Properties of the reverb\<close>

lemma upto_1_5: "[1..5] = [1, 2, 3, 4, 5 :: int]"
  by (simp add: upto_rec1 upto.simps)

lemma reverb_loop_not_zero_division:
  "reverb_loop signal d df todo acc \<noteq> Inl ZeroDivisionError"
  by (induction signal d df todo acc rule: reverb_loop.induct)
     (auto simp: Let_def assign_from_def split: sum.splits if_splits)

text \<open>
  C2, at an input the claim covers: a room size of 0.0001 s is positive, yet the delay
  \<open>int((0.0001 / 5) * 16000) = int(0.32)\<close> is 0, \<^verbatim>\<open>signal[:-0]\<close> is empty, and the
  assignment \<^verbatim>\<open>echo[0:] = ...\<close> of an empty array to a slice of length 1 raises
  \<^verbatim>\<open>ValueError\<close>: no block is returned.
\<close>

theorem apply_reverb_tiny_room_raises:
  "apply_reverb init_audio [1 / 2] (1 / 10000) (6 / 10) 5 = Inl ValueError"
  by (simp add: apply_reverb_def init_audio_def py_int_def upto_1_5 assign_from_def
      slice_upto_def slice_bound_def)

text \<open>
  C6, at \<^verbatim>\<open>reverb_time = 0\<close>: the delay is 0 as the claim says, but the call does not
  return the input times \<open>1 + sum of decay_factor ^ i\<close>; the first echo raises
  \<^verbatim>\<open>ValueError\<close>, because \<^verbatim>\<open>signal[:-0]\<close> is the empty slice and not the whole signal.
\<close>

theorem apply_reverb_zero_time_raises:
  "apply_reverb init_audio [1 / 2] 0 (6 / 10) 5 = Inl ValueError"
  by (simp add: apply_reverb_def init_audio_def py_int_def upto_1_5 assign_from_def
      slice_upto_def slice_bound_def)

text \<open>
  C7, as the claim states it, fails: with \<^verbatim>\<open>num_echoes = 0\<close> the division
  \<^verbatim>\<open>reverb_time / num_echoes\<close> raises \<^verbatim>\<open>ZeroDivisionError\<close>.
\<close>

theorem apply_reverb_zero_echoes_raises:
  "apply_reverb init_audio [1 / 2] (3 / 10) (6 / 10) 0 = Inl ZeroDivisionError"
  by (simp add: apply_reverb_def)

text \<open>
  C7, amended: \<^verbatim>\<open>apply_reverb\<close> raises \<^verbatim>\<open>ZeroDivisionError\<close> exactly when
  \<^verbatim>\<open>num_echoes\<close> is 0, for every block, reverb time and decay factor.
\<close>

theorem apply_reverb_zero_division_iff:
  "apply_reverb self signal reverb_time decay_factor num_echoes = Inl ZeroDivisionError
     \<longleftrightarrow> num_echoes = 0"
  using reverb_loop_not_zero_division
  by (auto simp: apply_reverb_def Let_def split: sum.splits)

theorem apply_reverb_zero_division_iff_witness:
  "apply_reverb init_audio [1 / 2] (3 / 10) (6 / 10) 0 = Inl ZeroDivisionError
   \<and> apply_reverb init_audio [1 / 2] (3 / 10) (6 / 10) 5 \<noteq> Inl ZeroDivisionError"
  using apply_reverb_zero_division_iff [of init_audio "[1 / 2]" "3 / 10" "6 / 10" 0]
    apply_reverb_zero_division_iff [of init_audio "[1 / 2]" "3 / 10" "6 / 10" 5]
  by simp

subsection \<open>The reverb against its reference\<close>

text \<open>
  With a delay of \<open>k\<close> samples, \<open>0 < k < N\<close>, the echo array is \<open>k\<close> zeros followed
  by the first \<open>N - k\<close> samples of the signal, scaled: the slice and the value have one
  length and the assignment succeeds.
\<close>

lemma echo_positive_delay:
  fixes signal :: "real list"
  assumes "0 < k" "k < int (length signal)"
  shows "assign_from (replicate (length signal) 0) k
            (map (\<lambda>x. x * decay) (slice_upto signal (- k)))
         = Inr (replicate (nat k) 0 @ map (\<lambda>x. x * decay) (take (length signal - nat k) signal))"
proof -
  have b1: "slice_bound k (length signal) = nat k"
    using assms by (simp add: slice_bound_def)
  have b2: "slice_bound (- k) (length signal) = length signal - nat k"
    using assms by (simp add: slice_bound_def)
  show ?thesis
    using assms by (simp add: assign_from_def slice_upto_def b1 b2 Let_def)
qed

lemma echo_positive_delay_nth:
  assumes "0 < k" "k < int (length signal)" "n < length signal"
  shows "(replicate (nat k) 0 @ map (\<lambda>x. x * decay) (take (length signal - nat k) signal)) ! n
         = decay * shifted signal k n"
proof (cases "k \<le> int n")
  case True
  then have "nat k \<le> n" by simp
  moreover have "n - nat k < length signal - nat k" using assms True by linarith
  moreover have "nat (int n - k) = n - nat k" using assms True by linarith
  ultimately show ?thesis
    using assms True by (simp add: nth_append shifted_def)
next
  case False
  then have "n < nat k" by simp
  then show ?thesis using False by (simp add: nth_append shifted_def)
qed

lemma echo_positive_delay_length:
  assumes "0 < k" "k < int (length signal)"
  shows "length (replicate (nat k) (0::real) @ map (\<lambda>x. x * decay) (take (length signal - nat k) signal))
         = length signal"
  using assms by simp

lemma reverb_loop_positive_delay:
  assumes "1 \<le> d" "\<forall>i \<in> set todo. 1 \<le> i" "length acc = length signal"
  shows "reverb_loop signal d df todo acc
         = Inr (map (\<lambda>n. acc ! n +
                  (\<Sum>i\<leftarrow>todo. if d * i < int (length signal)
                       then df ^ nat i * shifted signal (d * i) n else 0))
                [0..<length signal])"
  using assms(2,3)
proof (induction todo arbitrary: acc)
  case Nil
  then show ?case by (simp add: map_nth [symmetric] del: map_nth) (metis map_nth)
next
  case (Cons i todo)
  have i: "1 \<le> i" and rest: "\<forall>i \<in> set todo. 1 \<le> i" using Cons.prems by simp_all
  have k: "0 < d * i" using assms(1) i by simp
  show ?case
  proof (cases "d * i < int (length signal)")
    case True
    let ?echo = "replicate (nat (d * i)) 0 @
        map (\<lambda>x. x * df ^ nat i) (take (length signal - nat (d * i)) signal)"
    let ?acc = "map2 (+) acc ?echo"
    have len: "length ?acc = length signal"
      using Cons.prems True k by simp
    have nth: "?acc ! n = acc ! n + df ^ nat i * shifted signal (d * i) n"
      if "n < length signal" for n
    proof -
      have "?acc ! n = acc ! n + ?echo ! n"
        using that Cons.prems True k by (subst nth_map) (simp_all)
      then show ?thesis
        using echo_positive_delay_nth [OF k True that, of "df ^ nat i"] by simp
    qed
    have "reverb_loop signal d df (i # todo) acc = reverb_loop signal d df todo ?acc"
      using True echo_positive_delay [OF k True, of "df ^ nat i"]
      by (simp add: Let_def)
    also have "\<dots> = Inr (map (\<lambda>n. ?acc ! n +
                  (\<Sum>i\<leftarrow>todo. if d * i < int (length signal)
                       then df ^ nat i * shifted signal (d * i) n else 0))
                [0..<length signal])"
      by (rule Cons.IH [OF rest len])
    also have "\<dots> = Inr (map (\<lambda>n. acc ! n +
                  (\<Sum>i\<leftarrow>i # todo. if d * i < int (length signal)
                       then df ^ nat i * shifted signal (d * i) n else 0))
                [0..<length signal])"
      using True by (simp add: nth add.assoc)
    finally show ?thesis .
  next
    case False
    have "reverb_loop signal d df (i # todo) acc = reverb_loop signal d df todo acc"
      using False by (simp add: Let_def)
    also have "\<dots> = Inr (map (\<lambda>n. acc ! n +
                  (\<Sum>i\<leftarrow>todo. if d * i < int (length signal)
                       then df ^ nat i * shifted signal (d * i) n else 0))
                [0..<length signal])"
      using Cons.prems by (intro Cons.IH [OF rest]) simp
    finally show ?thesis using False by simp
  qed
qed

text \<open>
  On the exact-real model, for a delay of at least 1, \<open>apply_reverb\<close> is the
  reference of the specification. The code computes the delay and the samples in
  machine arithmetic; see the section on the reverb in machine arithmetic.
\<close>

lemma apply_reverb_exact_reference:
  assumes "1 \<le> num_echoes"
    and "1 \<le> \<lfloor>(reverb_time / real_of_int num_echoes) * real_of_int (fs self)\<rfloor>"
  shows "apply_reverb self signal reverb_time decay_factor num_echoes
         = Inr (reverb_ref (fs self) signal reverb_time decay_factor num_echoes)"
proof -
  let ?x = "(reverb_time / real_of_int num_echoes) * real_of_int (fs self)"
  have "0 \<le> ?x" using assms(2) by linarith
  then have d: "py_int ?x = \<lfloor>?x\<rfloor>" by (simp add: py_int_def)
  have todo: "\<forall>i \<in> set [1..num_echoes]. 1 \<le> i" by simp
  have ne: "(num_echoes = 0) = False" using assms(1) by simp
  have loop: "reverb_loop signal \<lfloor>?x\<rfloor> decay_factor [1..num_echoes] signal
      = Inr (map (\<lambda>n. signal ! n +
                  (\<Sum>i\<leftarrow>[1..num_echoes]. if \<lfloor>?x\<rfloor> * i < int (length signal)
                       then decay_factor ^ nat i * shifted signal (\<lfloor>?x\<rfloor> * i) n else 0))
                [0..<length signal])"
    by (rule reverb_loop_positive_delay [OF assms(2) todo refl])
  show ?thesis
    by (simp only: apply_reverb_def reverb_ref_def Let_def d loop ne if_False sum.case
        map_map o_def)
qed



subsection \<open>When the reverb returns\<close>

text \<open>
  Whenever the delay is not 0 the call returns, and the block it returns has the
  length of the input and every sample in \<open>[-1, 1]\<close>; with a delay of 0 and a
  non-empty block it raises \<^verbatim>\<open>ValueError\<close> at the first echo.
\<close>

lemma echo_nonzero_delay:
  fixes signal :: "real list"
  assumes "k \<noteq> 0" "k < int (length signal)"
  shows "\<exists>v. assign_from (replicate (length signal) 0) k
              (map (\<lambda>x. x * decay) (slice_upto signal (- k))) = Inr v
            \<and> length v = length signal"
proof (cases "0 < k")
  case True
  show ?thesis
    using echo_positive_delay [OF True assms(2)] echo_positive_delay_length [OF True assms(2)]
    by simp
next
  case False
  then have neg: "k < 0" using assms(1) by simp
  have b1: "slice_bound k (length signal) = nat (int (length signal) + k)"
    using neg by (simp add: slice_bound_def max_def)
  have b2: "slice_bound (- k) (length signal) = min (nat (- k)) (length signal)"
    using neg by (simp add: slice_bound_def)
  have eq: "min (length signal) (min (nat (- k)) (length signal))
      = length signal - nat (int (length signal) + k)"
    using neg by linarith
  show ?thesis
    using neg by (simp add: assign_from_def slice_upto_def b1 b2 Let_def eq)
qed

lemma reverb_loop_nonzero_delay:
  assumes "d \<noteq> 0" "\<forall>i \<in> set todo. 1 \<le> i" "length acc = length signal"
  shows "\<exists>r. reverb_loop signal d df todo acc = Inr r \<and> length r = length signal"
  using assms(2,3)
proof (induction todo arbitrary: acc)
  case Nil
  then show ?case by simp
next
  case (Cons i todo)
  have i: "1 \<le> i" and rest: "\<forall>i \<in> set todo. 1 \<le> i" using Cons.prems by simp_all
  have k: "d * i \<noteq> 0" using assms(1) i by simp
  show ?case
  proof (cases "d * i < int (length signal)")
    case True
    obtain v where v: "assign_from (replicate (length signal) 0) (d * i)
              (map (\<lambda>x. x * df ^ nat i) (slice_upto signal (- (d * i)))) = Inr v"
        and lv: "length v = length signal"
      using echo_nonzero_delay [OF k True] by blast
    have "reverb_loop signal d df (i # todo) acc
        = reverb_loop signal d df todo (map2 (+) acc v)"
      using True v by (simp add: Let_def)
    moreover have "length (map2 (+) acc v) = length signal"
      using lv Cons.prems by simp
    ultimately show ?thesis using Cons.IH [OF rest] by simp
  next
    case False
    then have "reverb_loop signal d df (i # todo) acc = reverb_loop signal d df todo acc"
      by (simp add: Let_def)
    then show ?thesis using Cons.IH [OF rest] Cons.prems by simp
  qed
qed

lemma clip_range: "- 1 \<le> clip x \<and> clip x \<le> 1"
  by (simp add: clip_def)

lemma apply_reverb_nonzero_delay:
  assumes "num_echoes \<noteq> 0"
    and "py_int ((reverb_time / real_of_int num_echoes) * real_of_int (fs self)) \<noteq> 0"
  shows "\<exists>r. apply_reverb self signal reverb_time decay_factor num_echoes = Inr r
           \<and> length r = length signal \<and> (\<forall>x \<in> set r. - 1 \<le> x \<and> x \<le> 1)"
proof -
  have todo: "\<forall>i \<in> set [1..num_echoes]. 1 \<le> i" by simp
  obtain r where r: "reverb_loop signal
        (py_int ((reverb_time / real_of_int num_echoes) * real_of_int (fs self)))
        decay_factor [1..num_echoes] signal = Inr r" and lr: "length r = length signal"
    using reverb_loop_nonzero_delay [OF assms(2) todo refl] by blast
  have "apply_reverb self signal reverb_time decay_factor num_echoes = Inr (map clip r)"
    using assms(1) by (simp only: apply_reverb_def Let_def r if_False sum.case)
  then show ?thesis using lr clip_range by auto
qed

lemma apply_reverb_zero_delay:
  assumes "1 \<le> num_echoes" "signal \<noteq> []"
    and "py_int ((reverb_time / real_of_int num_echoes) * real_of_int (fs self)) = 0"
  shows "apply_reverb self signal reverb_time decay_factor num_echoes = Inl ValueError"
proof -
  have up: "[1..num_echoes] = 1 # [2..num_echoes]"
    using assms(1) by (simp add: upto_rec1)
  have ne: "(num_echoes = 0) = False" using assms(1) by simp
  have "assign_from (replicate (length signal) 0) 0
          (map (\<lambda>x. x * decay_factor ^ nat 1) (slice_upto signal 0)) = Inl ValueError"
    using assms(2) by (simp add: assign_from_def slice_upto_def slice_bound_def)
  then have "reverb_loop signal 0 decay_factor [1..num_echoes] signal = Inl ValueError"
    unfolding up using assms(2) by (simp add: Let_def)
  then show ?thesis
    by (simp only: apply_reverb_def Let_def assms(3) ne if_False sum.case)
qed

subsection \<open>The reverb on the store\<close>

text \<open>
  One round of the loop on the store, with the two arrays it makes named by their
  addresses: the echo array at \<open>length h\<close>, the scaled slice after it.
\<close>

lemma reverb_loop_store_Cons:
  "reverb_loop_store sig d df (i # todo) rs h =
     (let h1 = h @ [replicate (length (h ! sig)) 0] in
      if d * i < int (length (h1 ! sig)) then
        (let h2 = h1 @ [map (\<lambda>x. x * df ^ nat i) (slice_upto (h1 ! sig) (- d * i))] in
         case assign_from (h2 ! length h) (d * i) (h2 ! length h1) of
           Inl e \<Rightarrow> (Some e, h2)
         | Inr v \<Rightarrow>
             reverb_loop_store sig d df todo rs
               ((h2[length h := v])[rs := map2 (+) ((h2[length h := v]) ! rs)
                                               ((h2[length h := v]) ! length h)]))
      else reverb_loop_store sig d df todo rs h1)"
  by (simp only: reverb_loop_store.simps Let_def new_array_def fst_conv snd_conv)


lemma reverb_loop_store_frame:
  assumes "rs < length h"
  shows "length h \<le> length (snd (reverb_loop_store sig d df todo rs h))
       \<and> (\<forall>a < length h. a \<noteq> rs \<longrightarrow> snd (reverb_loop_store sig d df todo rs h) ! a = h ! a)"
  using assms
proof (induction todo arbitrary: h)
  case Nil
  show ?case by simp
next
  case (Cons i todo)
  define h1 where "h1 = h @ [replicate (length (h ! sig)) 0]"
  define h2 where "h2 = h1 @ [map (\<lambda>x. x * df ^ nat i) (slice_upto (h1 ! sig) (- d * i))]"
  have len1: "length h1 = Suc (length h)" by (simp add: h1_def)
  have len2: "length h2 = Suc (Suc (length h))" by (simp add: h2_def len1)
  have old1: "h1 ! a = h ! a" if "a < length h" for a
    using that by (simp add: h1_def nth_append)
  have old2: "h2 ! a = h ! a" if "a < length h" for a
    using that old1 [OF that] by (simp add: h2_def nth_append len1)
  have unfold: "reverb_loop_store sig d df (i # todo) rs h =
     (if d * i < int (length (h1 ! sig)) then
         case assign_from (h2 ! length h) (d * i) (h2 ! length h1) of
           Inl e \<Rightarrow> (Some e, h2)
         | Inr v \<Rightarrow>
             reverb_loop_store sig d df todo rs
               ((h2[length h := v])[rs := map2 (+) ((h2[length h := v]) ! rs)
                                               ((h2[length h := v]) ! length h)])
      else reverb_loop_store sig d df todo rs h1)"
    unfolding h2_def h1_def by (simp only: reverb_loop_store_Cons Let_def)
  show ?case
  proof (cases "d * i < int (length (h1 ! sig))")
    case False
    have step: "reverb_loop_store sig d df (i # todo) rs h = reverb_loop_store sig d df todo rs h1"
      using False by (simp only: unfold if_False)
    have rs1: "rs < length h1" using Cons.prems by (simp add: len1)
    have ih: "length h1 \<le> length (snd (reverb_loop_store sig d df todo rs h1))"
      "\<And>a. a < length h1 \<Longrightarrow> a \<noteq> rs \<Longrightarrow> snd (reverb_loop_store sig d df todo rs h1) ! a = h1 ! a"
      using Cons.IH [OF rs1] by blast+
    have "length h \<le> length (snd (reverb_loop_store sig d df todo rs h1))"
      using ih(1) len1 by linarith
    moreover have "snd (reverb_loop_store sig d df todo rs h1) ! a = h ! a"
      if "a < length h" "a \<noteq> rs" for a
      using ih(2) [of a] that old1 [of a] len1 by simp
    ultimately show ?thesis unfolding step by blast
  next
    case True
    show ?thesis
    proof (cases "assign_from (h2 ! length h) (d * i) (h2 ! length h1)")
      case (Inl e)
      have step: "reverb_loop_store sig d df (i # todo) rs h = (Some e, h2)"
        using True Inl by (simp only: unfold if_True sum.case)
      show ?thesis
        unfolding step using old2 len2 by simp
    next
      case (Inr v)
      define h3 where "h3 = h2[length h := v]"
      define h4 where "h4 = h3[rs := map2 (+) (h3 ! rs) (h3 ! length h)]"
      have step: "reverb_loop_store sig d df (i # todo) rs h = reverb_loop_store sig d df todo rs h4"
        using True Inr by (simp only: unfold if_True sum.case h3_def h4_def)
      have len4: "length h4 = Suc (Suc (length h))" by (simp add: h4_def h3_def len2)
      have rs4: "rs < length h4" using Cons.prems by (simp add: len4)
      have old4: "h4 ! a = h ! a" if "a < length h" "a \<noteq> rs" for a
        using that old2 [of a] by (simp add: h4_def h3_def)
      have ih: "length h4 \<le> length (snd (reverb_loop_store sig d df todo rs h4))"
        "\<And>a. a < length h4 \<Longrightarrow> a \<noteq> rs \<Longrightarrow> snd (reverb_loop_store sig d df todo rs h4) ! a = h4 ! a"
        using Cons.IH [OF rs4] by blast+
      have "length h \<le> length (snd (reverb_loop_store sig d df todo rs h4))"
        using ih(1) len4 by linarith
      moreover have "snd (reverb_loop_store sig d df todo rs h4) ! a = h ! a"
        if "a < length h" "a \<noteq> rs" for a
        using ih(2) [of a] that old4 [of a] len4 by simp
      ultimately show ?thesis unfolding step by blast
    qed
  qed
qed


lemma reverb_loop_store_value:
  assumes "sig < length h" "rs < length h" "sig \<noteq> rs"
  shows "case reverb_loop (h ! sig) d df todo (h ! rs) of
           Inl e \<Rightarrow> fst (reverb_loop_store sig d df todo rs h) = Some e
         | Inr v \<Rightarrow> fst (reverb_loop_store sig d df todo rs h) = None
                   \<and> snd (reverb_loop_store sig d df todo rs h) ! rs = v"
  using assms
proof (induction todo arbitrary: h)
  case Nil
  show ?case by simp
next
  case (Cons i todo)
  define h1 where "h1 = h @ [replicate (length (h ! sig)) 0]"
  define h2 where "h2 = h1 @ [map (\<lambda>x. x * df ^ nat i) (slice_upto (h1 ! sig) (- d * i))]"
  have len1: "length h1 = Suc (length h)" by (simp add: h1_def)
  have len2: "length h2 = Suc (Suc (length h))" by (simp add: h2_def len1)
  have old1: "h1 ! a = h ! a" if "a < length h" for a
    using that by (simp add: h1_def nth_append)
  have old2: "h2 ! a = h ! a" if "a < length h" for a
    using that old1 [OF that] by (simp add: h2_def nth_append len1)
  have echo: "h2 ! length h = replicate (length (h ! sig)) 0"
    by (simp add: h2_def h1_def nth_append)
  have scaled: "h2 ! length h1 = map (\<lambda>x. x * df ^ nat i) (slice_upto (h ! sig) (- d * i))"
    using old1 [OF Cons.prems(1)] by (simp add: h2_def)
  have unfold: "reverb_loop_store sig d df (i # todo) rs h =
     (if d * i < int (length (h1 ! sig)) then
         case assign_from (h2 ! length h) (d * i) (h2 ! length h1) of
           Inl e \<Rightarrow> (Some e, h2)
         | Inr v \<Rightarrow>
             reverb_loop_store sig d df todo rs
               ((h2[length h := v])[rs := map2 (+) ((h2[length h := v]) ! rs)
                                               ((h2[length h := v]) ! length h)])
      else reverb_loop_store sig d df todo rs h1)"
    unfolding h2_def h1_def by (simp only: reverb_loop_store_Cons Let_def)
  have pure: "reverb_loop (h ! sig) d df (i # todo) (h ! rs) =
     (if d * i < int (length (h ! sig)) then
         case assign_from (replicate (length (h ! sig)) 0) (d * i)
                (map (\<lambda>x. x * df ^ nat i) (slice_upto (h ! sig) (- d * i))) of
           Inl e \<Rightarrow> Inl e
         | Inr v \<Rightarrow> reverb_loop (h ! sig) d df todo (map2 (+) (h ! rs) v)
      else reverb_loop (h ! sig) d df todo (h ! rs))"
    by (simp only: reverb_loop.simps Let_def)
  show ?case
  proof (cases "d * i < int (length (h ! sig))")
    case False
    then have False1: "\<not> d * i < int (length (h1 ! sig))"
      using old1 [OF Cons.prems(1)] by simp
    have step: "reverb_loop_store sig d df (i # todo) rs h = reverb_loop_store sig d df todo rs h1"
      using False1 by (simp only: unfold if_False)
    have pstep: "reverb_loop (h ! sig) d df (i # todo) (h ! rs)
        = reverb_loop (h1 ! sig) d df todo (h1 ! rs)"
      using False old1 [OF Cons.prems(1)] old1 [OF Cons.prems(2)] by (simp only: pure if_False)
    have "sig < length h1" "rs < length h1" using Cons.prems by (simp_all add: len1)
    then show ?thesis
      unfolding step pstep using Cons.IH [of h1] Cons.prems(3) by blast
  next
    case True
    then have True1: "d * i < int (length (h1 ! sig))"
      using old1 [OF Cons.prems(1)] by simp
    show ?thesis
    proof (cases "assign_from (replicate (length (h ! sig)) 0) (d * i)
                (map (\<lambda>x. x * df ^ nat i) (slice_upto (h ! sig) (- d * i)))")
      case (Inl e)
      have step: "reverb_loop_store sig d df (i # todo) rs h = (Some e, h2)"
        using True1 Inl by (simp only: unfold if_True echo scaled sum.case)
      have pstep: "reverb_loop (h ! sig) d df (i # todo) (h ! rs) = Inl e"
        using True Inl by (simp only: pure if_True sum.case)
      show ?thesis unfolding step pstep by simp
    next
      case (Inr v)
      define h3 where "h3 = h2[length h := v]"
      define h4 where "h4 = h3[rs := map2 (+) (h3 ! rs) (h3 ! length h)]"
      have step: "reverb_loop_store sig d df (i # todo) rs h = reverb_loop_store sig d df todo rs h4"
        using True1 Inr by (simp only: unfold if_True echo scaled sum.case h3_def h4_def)
      have len4: "length h4 = Suc (Suc (length h))" by (simp add: h4_def h3_def len2)
      have rs3: "h3 ! rs = h ! rs"
        using Cons.prems(2) old2 [OF Cons.prems(2)] by (simp add: h3_def)
      have e3: "h3 ! length h = v"
        by (simp add: h3_def len2)
      have rs4: "h4 ! rs = map2 (+) (h ! rs) v"
        using Cons.prems(2) by (simp add: h4_def h3_def len2 rs3 [unfolded h3_def] e3 [unfolded h3_def])
      have sig4: "h4 ! sig = h ! sig"
        using Cons.prems old2 [OF Cons.prems(1)] by (simp add: h4_def h3_def)
      have pstep: "reverb_loop (h ! sig) d df (i # todo) (h ! rs)
          = reverb_loop (h4 ! sig) d df todo (h4 ! rs)"
        using True Inr by (simp only: pure if_True sum.case rs4 sig4)
      have "sig < length h4" "rs < length h4" using Cons.prems by (simp_all add: len4)
      then show ?thesis
        unfolding step pstep using Cons.IH [of h4] Cons.prems(3) by blast
    qed
  qed
qed


lemma apply_reverb_store_cases:
  "apply_reverb_store self signal rt df ne h =
     (if ne = 0 then (Inl ZeroDivisionError, h @ [h ! signal])
      else case reverb_loop_store signal
                  (py_int ((rt / real_of_int ne) * real_of_int (fs self))) df [1..ne]
                  (length h) (h @ [h ! signal]) of
             (Some e, h2) \<Rightarrow> (Inl e, h2)
           | (None, h2) \<Rightarrow> (Inr (length h2), h2 @ [map clip (h2 ! length h)]))"
  by (simp only: apply_reverb_store_def Let_def new_array_def fst_conv snd_conv)

lemma apply_reverb_store_frame:
  "length h < length (snd (apply_reverb_store self signal rt df ne h))
   \<and> (\<forall>a < length h. snd (apply_reverb_store self signal rt df ne h) ! a = h ! a)
   \<and> (\<forall>out. fst (apply_reverb_store self signal rt df ne h) = Inr out \<longrightarrow> length h < out)"
proof (cases "ne = 0")
  case True
  then have "apply_reverb_store self signal rt df ne h = (Inl ZeroDivisionError, h @ [h ! signal])"
    by (simp add: apply_reverb_store_cases)
  then show ?thesis by (simp add: nth_append)
next
  case False
  define h1 where "h1 = h @ [h ! signal]"
  define d where "d = py_int ((rt / real_of_int ne) * real_of_int (fs self))"
  define res where "res = reverb_loop_store signal d df [1..ne] (length h) h1"
  have len1: "length h1 = Suc (length h)" by (simp add: h1_def)
  have rs: "length h < length h1" by (simp add: len1)
  have fr: "length h1 \<le> length (snd res)"
    "\<And>a. a < length h1 \<Longrightarrow> a \<noteq> length h \<Longrightarrow> snd res ! a = h1 ! a"
    using reverb_loop_store_frame [OF rs, of signal d df "[1..ne]"] unfolding res_def by blast+
  have old: "snd res ! a = h ! a" if "a < length h" for a
    using fr(2) [of a] that by (simp add: len1 h1_def nth_append)
  have R: "apply_reverb_store self signal rt df ne h =
      (case res of (Some e, h2) \<Rightarrow> (Inl e, h2)
       | (None, h2) \<Rightarrow> (Inr (length h2), h2 @ [map clip (h2 ! length h)]))"
    using False by (simp only: apply_reverb_store_cases if_False res_def d_def h1_def)
  show ?thesis
  proof (cases "fst res")
    case None
    then have "apply_reverb_store self signal rt df ne h
        = (Inr (length (snd res)), snd res @ [map clip (snd res ! length h)])"
      unfolding R by (cases res) simp
    then show ?thesis
      using fr(1) old len1 by (simp add: nth_append)
  next
    case (Some e)
    then have "apply_reverb_store self signal rt df ne h = (Inl e, snd res)"
      unfolding R by (cases res) simp
    then show ?thesis
      using fr(1) old len1 by simp
  qed
qed

text \<open>
  The store model computes what \<open>apply_reverb\<close> computes: the same exception, or an
  array holding the same block.
\<close>

lemma apply_reverb_store_value:
  assumes "signal < length h"
  shows "case apply_reverb self (h ! signal) rt df ne of
           Inl e \<Rightarrow> fst (apply_reverb_store self signal rt df ne h) = Inl e
         | Inr v \<Rightarrow> \<exists>out. fst (apply_reverb_store self signal rt df ne h) = Inr out
                     \<and> snd (apply_reverb_store self signal rt df ne h) ! out = v"
proof (cases "ne = 0")
  case True
  then show ?thesis
    by (simp add: apply_reverb_store_cases apply_reverb_def)
next
  case False
  define h1 where "h1 = h @ [h ! signal]"
  define d where "d = py_int ((rt / real_of_int ne) * real_of_int (fs self))"
  define res where "res = reverb_loop_store signal d df [1..ne] (length h) h1"
  have len1: "length h1 = Suc (length h)" by (simp add: h1_def)
  have sig1: "h1 ! signal = h ! signal" using assms by (simp add: h1_def nth_append)
  have rs1: "h1 ! length h = h ! signal" by (simp add: h1_def)
  have R: "apply_reverb_store self signal rt df ne h =
      (case res of (Some e, h2) \<Rightarrow> (Inl e, h2)
       | (None, h2) \<Rightarrow> (Inr (length h2), h2 @ [map clip (h2 ! length h)]))"
    using False by (simp only: apply_reverb_store_cases if_False res_def d_def h1_def)
  have P: "apply_reverb self (h ! signal) rt df ne =
      (case reverb_loop (h ! signal) d df [1..ne] (h ! signal) of
         Inl e \<Rightarrow> Inl e | Inr r \<Rightarrow> Inr (map clip r))"
    using False by (simp only: apply_reverb_def Let_def if_False d_def)
  have link: "case reverb_loop (h ! signal) d df [1..ne] (h ! signal) of
           Inl e \<Rightarrow> fst res = Some e
         | Inr v \<Rightarrow> fst res = None \<and> snd res ! length h = v"
    using reverb_loop_store_value [of signal h1 "length h" d df "[1..ne]"] assms
    unfolding res_def sig1 rs1 by (simp add: len1)
  show ?thesis
  proof (cases "reverb_loop (h ! signal) d df [1..ne] (h ! signal)")
    case (Inl e)
    then have "fst res = Some e" using link by simp
    then have "apply_reverb_store self signal rt df ne h = (Inl e, snd res)"
      unfolding R by (cases res) simp
    then show ?thesis unfolding P Inl by simp
  next
    case (Inr v)
    then have "fst res = None" "snd res ! length h = v" using link by simp_all
    then have "apply_reverb_store self signal rt df ne h
        = (Inr (length (snd res)), snd res @ [map clip v])"
      unfolding R by (cases res) simp
    then show ?thesis unfolding P Inr by simp
  qed
qed

text \<open>
  C10. \<^verbatim>\<open>apply_reverb\<close> leaves the array it is given unchanged, whether it returns
  or raises: after the call the input array, and every other array that existed
  before, holds what it held; the echoes are accumulated in a new array, and the array
  returned is not the input array.
\<close>

theorem apply_reverb_keeps_input:
  "signal < length h \<Longrightarrow>
     snd (apply_reverb_store self signal reverb_time decay_factor num_echoes h) ! signal
       = h ! signal
     \<and> take (length h) (snd (apply_reverb_store self signal reverb_time decay_factor num_echoes h))
       = h
     \<and> fst (apply_reverb_store self signal reverb_time decay_factor num_echoes h) \<noteq> Inr signal"
proof -
  assume s: "signal < length h"
  let ?R = "apply_reverb_store self signal reverb_time decay_factor num_echoes h"
  note fr = apply_reverb_store_frame [of h self signal reverb_time decay_factor num_echoes]
  have len: "length h < length (snd ?R)" using fr by blast
  have old: "snd ?R ! a = h ! a" if "a < length h" for a using fr that by blast
  have fresh: "length h < out" if "fst ?R = Inr out" for out using fr that by blast
  have "take (length h) (snd ?R) = h"
    using len by (intro nth_equalityI) (simp_all add: old)
  moreover have "fst ?R \<noteq> Inr signal"
    using fresh [of signal] s by auto
  ultimately show ?thesis using old [OF s] by blast
qed

theorem apply_reverb_keeps_input_witness:
  "(0::nat) < length [[1 / 2, 1 / 4, 1 / 8, 1 / 16 :: real]]
   \<and> snd (apply_reverb_store init_audio 0 (1 / 3200) (1 / 2) 5 [[1 / 2, 1 / 4, 1 / 8, 1 / 16]]) ! 0
       = [1 / 2, 1 / 4, 1 / 8, 1 / 16]
   \<and> fst (apply_reverb_store init_audio 0 (1 / 3200) (1 / 2) 5 [[1 / 2, 1 / 4, 1 / 8, 1 / 16]])
       \<noteq> Inr 0"
proof -
  have s: "(0::nat) < length [[1 / 2, 1 / 4, 1 / 8, 1 / 16 :: real]]" by simp
  show ?thesis
    using s apply_reverb_keeps_input [OF s, of init_audio "1 / 3200" "1 / 2" 5] by simp
qed

section \<open>Properties of binary floating point\<close>

lemma two_powi_pos: "0 < (2::real) powi k"
  by (simp add: zero_less_power_int)

lemma ilog2_bounds:
  assumes "x \<noteq> 0"
  shows "2 powi (ilog2 x) \<le> \<bar>x\<bar> \<and> \<bar>x\<bar> < 2 powi (ilog2 x + 1)"
proof (cases "1 \<le> \<bar>x\<bar>")
  case True
  define n where "n = \<lfloor>\<bar>x\<bar>\<rfloor>"
  define b where "b = bitlen n"
  have n: "0 < n" using True by (simp add: n_def)
  have bb: "2 ^ nat (b - 1) \<le> n" "n < 2 ^ nat b"
    using bitlen_bounds [OF n] by (simp_all add: b_def)
  have b1: "1 \<le> b"
    using n bitlen_eq_zero_iff [of n] bitlen_nonneg [of n] by (simp add: b_def)
  have lo: "(2::real) powi (b - 1) = 2 ^ nat (b - 1)"
    using b1 by (simp add: power_int_def)
  have hi: "(2::real) powi b = 2 ^ nat b"
    using b1 by (simp add: power_int_def)
  have "real_of_int n \<le> \<bar>x\<bar>" "\<bar>x\<bar> < real_of_int (n + 1)"
    by (simp_all add: n_def)
  moreover have "(2::real) ^ nat (b - 1) \<le> real_of_int n"
    using bb(1) by (metis of_int_le_iff of_int_numeral of_int_power)
  moreover have "real_of_int (n + 1) \<le> 2 ^ nat b"
  proof -
    have "n + 1 \<le> 2 ^ nat b" using bb(2) by simp
    then show ?thesis by (metis of_int_le_iff of_int_numeral of_int_power)
  qed
  ultimately have "2 powi (b - 1) \<le> \<bar>x\<bar>" "\<bar>x\<bar> < 2 powi b"
    unfolding lo hi by linarith+
  moreover have "ilog2 x = b - 1"
    using True by (simp add: ilog2_def b_def n_def)
  ultimately show ?thesis by simp
next
  case False
  define y where "y = 1 / \<bar>x\<bar>"
  define m where "m = \<lceil>y\<rceil> - 1"
  define b where "b = bitlen m"
  have x: "0 < \<bar>x\<bar>" "\<bar>x\<bar> < 1" using assms False by simp_all
  have y1: "1 < y" using x by (simp add: y_def)
  have m: "0 < m" using y1 by (simp add: m_def)
  have my: "real_of_int m < y" "y \<le> real_of_int (m + 1)"
    by (simp_all add: m_def) linarith+
  have bb: "2 ^ nat (b - 1) \<le> m" "m < 2 ^ nat b"
    using bitlen_bounds [OF m] by (simp_all add: b_def)
  have b1: "1 \<le> b"
    using m bitlen_eq_zero_iff [of m] bitlen_nonneg [of m] by (simp add: b_def)
  have "(2::real) ^ nat (b - 1) \<le> real_of_int m"
    using bb(1) by (metis of_int_le_iff of_int_numeral of_int_power)
  then have ylo: "(2::real) ^ nat (b - 1) < y" using my(1) by linarith
  have "m + 1 \<le> 2 ^ nat b" using bb(2) by simp
  then have "real_of_int (m + 1) \<le> 2 ^ nat b"
    by (metis of_int_le_iff of_int_numeral of_int_power)
  then have yhi: "y \<le> 2 ^ nat b" using my(2) by linarith
  have xy: "\<bar>x\<bar> = 1 / y" using x by (simp add: y_def)
  have lo: "(2::real) powi (- b) = 1 / 2 ^ nat b"
    using b1 by (simp add: power_int_def field_simps)
  have hi: "(2::real) powi (- b + 1) = 1 / 2 ^ nat (b - 1)"
    using b1 by (simp add: power_int_def field_simps)
  have "2 powi (- b) \<le> \<bar>x\<bar>"
    unfolding lo xy using yhi y1 by (simp add: frac_le)
  moreover have "\<bar>x\<bar> < 2 powi (- b + 1)"
    unfolding hi xy using ylo y1 by (simp add: frac_less2)
  moreover have "ilog2 x = - b"
    using False by (simp add: ilog2_def b_def m_def y_def)
  ultimately show ?thesis by simp
qed

text \<open>
  Evaluating a rounding: the exponent is fixed by two bounds, the significand by its
  distance to the scaled value.
\<close>

lemma ilog2_eqI:
  assumes "2 powi k \<le> \<bar>x\<bar>" "\<bar>x\<bar> < 2 powi (k + 1)"
  shows "ilog2 x = k"
proof -
  have x: "x \<noteq> 0"
  proof
    assume "x = 0"
    then have "2 powi k \<le> (0::real)" using assms(1) by simp
    then show False using two_powi_pos [of k] by linarith
  qed
  note b = ilog2_bounds [OF x]
  have "\<not> ilog2 x < k"
  proof
    assume "ilog2 x < k"
    then have "(2::real) powi (ilog2 x + 1) \<le> 2 powi k"
      by (intro power_int_increasing) simp_all
    then show False using b assms(1) by linarith
  qed
  moreover have "\<not> k < ilog2 x"
  proof
    assume "k < ilog2 x"
    then have "(2::real) powi (k + 1) \<le> 2 powi (ilog2 x)"
      by (intro power_int_increasing) simp_all
    then show False using b assms(2) by linarith
  qed
  ultimately show ?thesis by linarith
qed

lemma round_even_error: "\<bar>real_of_int (round_even m) - m\<bar> \<le> 1 / 2"
  unfolding round_even_def Let_def by (auto simp: abs_le_iff)

lemma round_even_eqI:
  assumes "\<bar>y - of_int m\<bar> < 1 / 2"
  shows "round_even y = m"
proof -
  have "\<lfloor>y\<rfloor> = m \<or> \<lfloor>y\<rfloor> = m - 1" using assms by linarith
  then show ?thesis
    using assms unfolding round_even_def Let_def by (auto simp: abs_less_iff)
qed

lemma round_even_tie:
  assumes "y = of_int m + 1 / 2 \<or> y = of_int m - 1 / 2" "even m"
  shows "round_even y = m"
proof -
  have "\<lfloor>y\<rfloor> = m \<or> \<lfloor>y\<rfloor> = m - 1" using assms(1) by linarith
  then show ?thesis
    using assms unfolding round_even_def Let_def by auto
qed

lemma round_to_eqI:
  assumes "2 powi k \<le> \<bar>x\<bar>" "\<bar>x\<bar> < 2 powi (k + 1)"
    and "e = max (k - int (precision fmt) + 1) (emin fmt)"
    and "round_even (x / 2 powi e) = m"
  shows "round_to fmt x = of_int m * 2 powi e"
proof -
  have x: "x \<noteq> 0"
  proof
    assume "x = 0"
    then have "2 powi k \<le> (0::real)" using assms(1) by simp
    then show False using two_powi_pos [of k] by linarith
  qed
  show ?thesis
    using x assms(3,4) by (simp add: round_to_def Let_def ilog2_eqI [OF assms(1,2)])
qed

lemma rnd_eqI:
  assumes "round_to fmt x = y" "\<bar>y\<bar> < 2 powi emax fmt"
  shows "rnd fmt x = Finite y"
  using assms by (simp add: rnd_def Let_def)

lemma rnd_zero: "rnd binary64 0 = Finite 0" "rnd binary32 0 = Finite 0"
  by (simp_all add: rnd_def round_to_def binary64_def binary32_def)

text \<open>
  The error of a rounding: relative error \<open>2 ^ -precision\<close> in the normal range, half a
  subnormal spacing below it.
\<close>

lemma round_to_error:
  assumes "0 < precision fmt"
  shows "\<bar>round_to fmt x - x\<bar> \<le> \<bar>x\<bar> * 2 powi (- int (precision fmt)) + 2 powi (emin fmt - 1)"
proof (cases "x = 0")
  case True
  then show ?thesis using two_powi_pos [of "emin fmt - 1"] by (simp add: round_to_def)
next
  case False
  define e where "e = max (ilog2 x - int (precision fmt) + 1) (emin fmt)"
  define r where "r = round_even (x / 2 powi e)"
  have rt: "round_to fmt x = of_int r * 2 powi e"
    using False by (simp add: round_to_def Let_def e_def r_def)
  have pe: "0 < (2::real) powi e" by (rule two_powi_pos)
  have "round_to fmt x - x = (of_int r - x / 2 powi e) * 2 powi e"
    using pe by (simp add: rt field_simps)
  then have "\<bar>round_to fmt x - x\<bar> = \<bar>of_int r - x / 2 powi e\<bar> * 2 powi e"
    using pe by (simp add: abs_mult)
  also have "\<dots> \<le> (1 / 2) * 2 powi e"
    using round_even_error [of "x / 2 powi e"] pe unfolding r_def
    by (intro mult_right_mono) simp_all
  also have "\<dots> = 2 powi (e - 1)"
    by (simp add: power_int_diff)
  finally have err: "\<bar>round_to fmt x - x\<bar> \<le> 2 powi (e - 1)" .
  show ?thesis
  proof (cases "ilog2 x - int (precision fmt) + 1 \<le> emin fmt")
    case True
    then have eq: "e = emin fmt" by (simp add: e_def)
    have nn: "0 \<le> \<bar>x\<bar> * 2 powi (- int (precision fmt))"
      using two_powi_pos [of "- int (precision fmt)"] by simp
    show ?thesis using err nn unfolding eq by linarith
  next
    case False
    then have "e - 1 = ilog2 x + (- int (precision fmt))" by (simp add: e_def)
    then have "(2::real) powi (e - 1) = 2 powi (ilog2 x + (- int (precision fmt)))"
      by (simp only:)
    also have "\<dots> = 2 powi (ilog2 x) * 2 powi (- int (precision fmt))"
      by (rule power_int_add) simp
    also have "\<dots> \<le> \<bar>x\<bar> * 2 powi (- int (precision fmt))"
      using ilog2_bounds [OF \<open>x \<noteq> 0\<close>] two_powi_pos [of "- int (precision fmt)"]
      by (intro mult_right_mono) simp_all
    finally have "(2::real) powi (e - 1) \<le> \<bar>x\<bar> * 2 powi (- int (precision fmt))" .
    moreover have "0 < (2::real) powi (emin fmt - 1)" by (rule two_powi_pos)
    ultimately show ?thesis using err by linarith
  qed
qed

lemma round_to_binary64_error:
  "\<bar>round_to binary64 x - x\<bar> \<le> \<bar>x\<bar> / 2 ^ 53 + 1 / 2 ^ 1075"
  using round_to_error [of binary64 x]
  by (simp add: binary64_def power_int_minus_divide)

lemma rnd_binary64_finite:
  assumes "\<bar>x\<bar> \<le> 2 ^ 1002"
  shows "rnd binary64 x = Finite (round_to binary64 x)"
proof -
  have "\<bar>round_to binary64 x\<bar> \<le> \<bar>x\<bar> + \<bar>x\<bar> / 2 ^ 53 + 1 / 2 ^ 1075"
    using round_to_binary64_error [of x] by linarith
  also have "\<dots> < 2 ^ 1024"
    using assms by simp
  finally have "\<not> 2 powi emax binary64 \<le> \<bar>round_to binary64 x\<bar>"
    by (simp add: binary64_def)
  then show ?thesis by (simp add: rnd_def Let_def)
qed

text \<open>
  The constants of the update: the double 0.2 and the double \<^verbatim>\<open>1 - 0.2\<close> (a tie,
  rounded to even).
\<close>

lemma round64_alpha: "round_to binary64 (2 / 10) = 3602879701896397 / 2 ^ 54"
proof -
  have "round_to binary64 (2 / 10) = of_int (7205759403792794) * 2 powi (- 55)"
  proof (rule round_to_eqI [where k = "- 3"])
    show "(- 55) = max ((- 3) - int (precision binary64) + 1) (emin binary64)"
      by (simp add: binary64_def)
    show "round_even ((2 / 10) / 2 powi (- 55)) = (7205759403792794)"
      by (rule round_even_eqI) (simp add: power_int_minus_divide)
  qed (simp_all add: power_int_minus_divide)
  then show ?thesis by (simp add: power_int_minus_divide)
qed

lemma round64_one_minus_alpha: "round_to binary64 (1 + - (3602879701896397 / 2 ^ 54)) = 3602879701896397 / 2 ^ 52"
proof -
  have "round_to binary64 (1 + - (3602879701896397 / 2 ^ 54)) = of_int (7205759403792794) * 2 powi (- 53)"
  proof (rule round_to_eqI [where k = "- 1"])
    show "(- 53) = max ((- 1) - int (precision binary64) + 1) (emin binary64)"
      by (simp add: binary64_def)
    show "round_even ((1 + - (3602879701896397 / 2 ^ 54)) / 2 powi (- 53)) = (7205759403792794)"
      by (rule round_even_tie) (simp_all add: power_int_minus_divide)
  qed (simp_all add: power_int_minus_divide)
  then show ?thesis by (simp add: power_int_minus_divide)
qed

lemma alpha64_value: "alpha64 = Finite (3602879701896397 / 2 ^ 54)"
  unfolding alpha64_def by (rule rnd_eqI [OF round64_alpha]) (simp add: binary64_def)

lemma one_minus_alpha64:
  "fsub binary64 (Finite 1) (Finite (3602879701896397 / 2 ^ 54)) = Finite (3602879701896397 / 2 ^ 52)"
  unfolding fsub_def fneg.simps fadd.simps
  by (rule rnd_eqI [OF round64_one_minus_alpha]) (simp add: binary64_def)

section \<open>Properties of the parameter update in binary64\<close>

text \<open>The roundings of \<^verbatim>\<open>0.2 * (1 - 0.2) + 0.2 * 0.2\<close>.\<close>

lemma round64_p1: "round_to binary64 ((3602879701896397 / 2 ^ 54) * (3602879701896397 / 2 ^ 52)) = 1441151880758559 / 2 ^ 53"
proof -
  have "round_to binary64 ((3602879701896397 / 2 ^ 54) * (3602879701896397 / 2 ^ 52)) = of_int (5764607523034236) * 2 powi (- 55)"
  proof (rule round_to_eqI [where k = "- 3"])
    show "(- 55) = max ((- 3) - int (precision binary64) + 1) (emin binary64)"
      by (simp add: binary64_def)
    show "round_even (((3602879701896397 / 2 ^ 54) * (3602879701896397 / 2 ^ 52)) / 2 powi (- 55)) = (5764607523034236)"
      by (rule round_even_eqI) (simp add: power_int_minus_divide)
  qed (simp_all add: power_int_minus_divide)
  then show ?thesis by (simp add: power_int_minus_divide)
qed

lemma round64_p2: "round_to binary64 ((3602879701896397 / 2 ^ 54) * (3602879701896397 / 2 ^ 54)) = 1441151880758559 / 2 ^ 55"
proof -
  have "round_to binary64 ((3602879701896397 / 2 ^ 54) * (3602879701896397 / 2 ^ 54)) = of_int (5764607523034236) * 2 powi (- 57)"
  proof (rule round_to_eqI [where k = "- 5"])
    show "(- 57) = max ((- 5) - int (precision binary64) + 1) (emin binary64)"
      by (simp add: binary64_def)
    show "round_even (((3602879701896397 / 2 ^ 54) * (3602879701896397 / 2 ^ 54)) / 2 powi (- 57)) = (5764607523034236)"
      by (rule round_even_eqI) (simp add: power_int_minus_divide)
  qed (simp_all add: power_int_minus_divide)
  then show ?thesis by (simp add: power_int_minus_divide)
qed

lemma round64_p3: "round_to binary64 ((1441151880758559 / 2 ^ 53) + (1441151880758559 / 2 ^ 55)) = 7205759403792795 / 2 ^ 55"
proof -
  have "round_to binary64 ((1441151880758559 / 2 ^ 53) + (1441151880758559 / 2 ^ 55)) = of_int (7205759403792795) * 2 powi (- 55)"
  proof (rule round_to_eqI [where k = "- 3"])
    show "(- 55) = max ((- 3) - int (precision binary64) + 1) (emin binary64)"
      by (simp add: binary64_def)
    show "round_even (((1441151880758559 / 2 ^ 53) + (1441151880758559 / 2 ^ 55)) / 2 powi (- 55)) = (7205759403792795)"
      by (rule round_even_eqI) (simp add: power_int_minus_divide)
  qed (simp_all add: power_int_minus_divide)
  then show ?thesis by (simp add: power_int_minus_divide)
qed

text \<open>
  The error of one update: with \<open>W\<close> the double \<^verbatim>\<open>1 - 0.2\<close> and \<open>A\<close> the double
  0.2, three roundings of relative error \<open>2 ^ -53\<close> and absolute error \<open>h\<close> leave the
  result within \<open>M / 2 ^ 51 + 4 h\<close> of \<open>t + W (x - t)\<close>.
\<close>

lemma smoothed_error:
  fixes x t p1 p2 s M h :: real
  defines "W \<equiv> 3602879701896397 / 2 ^ 52"
    and "A \<equiv> 3602879701896397 / 2 ^ 54"
  assumes M: "\<bar>x\<bar> \<le> M" "\<bar>t\<bar> \<le> M" and h: "0 \<le> h"
    and p1: "\<bar>p1 - x * W\<bar> \<le> \<bar>x * W\<bar> / 2 ^ 53 + h"
    and p2: "\<bar>p2 - t * A\<bar> \<le> \<bar>t * A\<bar> / 2 ^ 53 + h"
    and s: "\<bar>s - (p1 + p2)\<bar> \<le> \<bar>p1 + p2\<bar> / 2 ^ 53 + h"
  shows "\<bar>s - t - W * (x - t)\<bar> \<le> M / 2 ^ 51 + 4 * h"
proof -
  have M0: "0 \<le> M" using M by linarith
  have xw: "\<bar>x * W\<bar> \<le> M * W"
    using M by (simp add: abs_mult W_def)
  have ta: "\<bar>t * A\<bar> \<le> M * A"
    using M by (simp add: abs_mult A_def)
  have e1: "\<bar>p1 - x * W\<bar> \<le> M * W / 2 ^ 53 + h"
    using p1 xw by (simp add: field_simps)
  have e2: "\<bar>p2 - t * A\<bar> \<le> M * A / 2 ^ 53 + h"
    using p2 ta by (simp add: field_simps)
  have sum: "\<bar>p1 + p2\<bar> \<le> M * W + M * A + (M * W / 2 ^ 53 + h) + (M * A / 2 ^ 53 + h)"
    using e1 e2 xw ta by linarith
  have e3: "\<bar>s - (p1 + p2)\<bar>
      \<le> (M * W + M * A + (M * W / 2 ^ 53 + h) + (M * A / 2 ^ 53 + h)) / 2 ^ 53 + h"
    using s sum by (simp add: field_simps)
  have split: "s - t - W * (x - t)
      = (s - (p1 + p2)) + (p1 - x * W) + (p2 - t * A) + t * (W + A - 1)"
    by (simp add: algebra_simps)
  have wa: "\<bar>t * (W + A - 1)\<bar> \<le> M / 2 ^ 54"
  proof -
    have eq: "W + A - 1 = 1 / 2 ^ 54" by (simp add: W_def A_def)
    show ?thesis unfolding eq using M by (simp add: abs_mult)
  qed
  have "\<bar>s - t - W * (x - t)\<bar>
      \<le> \<bar>s - (p1 + p2)\<bar> + \<bar>p1 - x * W\<bar> + \<bar>p2 - t * A\<bar> + \<bar>t * (W + A - 1)\<bar>"
    unfolding split by linarith
  also have "\<dots> \<le> ((M * W + M * A + (M * W / 2 ^ 53 + h) + (M * A / 2 ^ 53 + h)) / 2 ^ 53 + h)
      + (M * W / 2 ^ 53 + h) + (M * A / 2 ^ 53 + h) + M / 2 ^ 54"
    using e1 e2 e3 wa by linarith
  also have "\<dots> \<le> M / 2 ^ 51 + 4 * h"
    using M0 h unfolding W_def A_def by (simp add: field_simps)
  finally show ?thesis .
qed

lemma smoothed_f64_rounds:
  assumes "\<bar>x\<bar> \<le> 2 ^ 1000" "\<bar>t\<bar> \<le> 2 ^ 1000"
  shows "smoothed_f64 (Finite x) (Finite t)
      = Finite (round_to binary64
          (round_to binary64 (x * (3602879701896397 / 2 ^ 52))
           + round_to binary64 (t * (3602879701896397 / 2 ^ 54))))"
proof -
  let ?W = "3602879701896397 / 2 ^ 52 :: real" and ?A = "3602879701896397 / 2 ^ 54 :: real"
  let ?p1 = "round_to binary64 (x * ?W)" and ?p2 = "round_to binary64 (t * ?A)"
  have xw: "\<bar>x * ?W\<bar> \<le> 2 ^ 1000"
  proof -
    have "\<bar>x * ?W\<bar> = \<bar>x\<bar> * ?W" by (simp add: abs_mult)
    also have "\<dots> \<le> \<bar>x\<bar> * 1" by (intro mult_left_mono) simp_all
    finally show ?thesis using assms(1) by simp
  qed
  have ta: "\<bar>t * ?A\<bar> \<le> 2 ^ 1000"
  proof -
    have "\<bar>t * ?A\<bar> = \<bar>t\<bar> * ?A" by (simp add: abs_mult)
    also have "\<dots> \<le> \<bar>t\<bar> * 1" by (intro mult_left_mono) simp_all
    finally show ?thesis using assms(2) by simp
  qed
  have m1: "fmul binary64 (Finite x) (Finite ?W) = Finite ?p1"
    using rnd_binary64_finite [of "x * ?W"] xw by simp
  have m2: "fmul binary64 (Finite t) (Finite ?A) = Finite ?p2"
    using rnd_binary64_finite [of "t * ?A"] ta by simp
  have b1: "\<bar>?p1\<bar> \<le> 2 ^ 1001"
    using round_to_binary64_error [of "x * ?W"] xw by (simp; linarith)
  have b2: "\<bar>?p2\<bar> \<le> 2 ^ 1001"
    using round_to_binary64_error [of "t * ?A"] ta by (simp; linarith)
  have "\<bar>?p1 + ?p2\<bar> \<le> 2 ^ 1002" using b1 b2 by (simp; linarith)
  then have a: "fadd binary64 (Finite ?p1) (Finite ?p2) = Finite (round_to binary64 (?p1 + ?p2))"
    using rnd_binary64_finite [of "?p1 + ?p2"] by simp
  show ?thesis
    by (simp only: smoothed_f64_def alpha64_value one_minus_alpha64 m1 m2 a)
qed

lemma smoothed_f64_toward:
  assumes "\<bar>x\<bar> \<le> 2 ^ 1000" "\<bar>t\<bar> \<le> 2 ^ 1000"
  shows "smoothed_toward x t (smoothed_f64 (Finite x) (Finite t))"
proof -
  let ?W = "3602879701896397 / 2 ^ 52 :: real" and ?A = "3602879701896397 / 2 ^ 54 :: real"
  define p1 where "p1 = round_to binary64 (x * ?W)"
  define p2 where "p2 = round_to binary64 (t * ?A)"
  define y where "y = round_to binary64 (p1 + p2)"
  define M where "M = max \<bar>x\<bar> \<bar>t\<bar>"
  define D where "D = \<bar>x - t\<bar>"
  define h where "h = (1 / 2 ^ 1075 :: real)"
  have val: "smoothed_f64 (Finite x) (Finite t) = Finite y"
    unfolding y_def p1_def p2_def by (rule smoothed_f64_rounds [OF assms])
  have M: "\<bar>x\<bar> \<le> M" "\<bar>t\<bar> \<le> M" by (simp_all add: M_def)
  have h0: "0 \<le> h" by (simp add: h_def)
  have e: "\<bar>y - t - ?W * (x - t)\<bar> \<le> M / 2 ^ 51 + 4 * h"
    using smoothed_error [OF M h0, of p1 p2 y]
      round_to_binary64_error [of "x * ?W"] round_to_binary64_error [of "t * ?A"]
      round_to_binary64_error [of "p1 + p2"]
    unfolding p1_def [symmetric] p2_def [symmetric] y_def [symmetric] h_def [symmetric]
    by blast
  have h4: "4 * h = 1 / 2 ^ 1073" by (simp add: h_def)
  have al: "allowance x t = M / 2 ^ 50 + 4 * h"
    by (simp add: allowance_def M_def h4)
  have D2: "D \<le> 2 * M" "0 \<le> D" using M by (simp_all add: D_def)
  define z where "z = ?W * (x - t)"
  define E where "E = M / 2 ^ 51 + 4 * h"
  have ez: "\<bar>y - t - z\<bar> \<le> E" using e by (simp only: z_def E_def)
  have M0: "0 \<le> M" using M by linarith
  have w0: "0 \<le> ?W" by simp
  have zabs: "\<bar>z\<bar> = ?W * D"
    unfolding z_def D_def by (simp only: abs_mult abs_of_nonneg [OF w0])
  have wlo: "4 / 5 * D \<le> ?W * D"
    by (rule mult_right_mono) (simp_all add: D2)
  have "?W * D \<le> (4 / 5 + 1 / 2 ^ 54) * D"
    by (rule mult_right_mono) (simp_all add: D2)
  then have whi: "?W * D \<le> 4 / 5 * D + D / 2 ^ 54"
    by (simp only: distrib_right times_divide_eq_left mult_1)
  have d54: "D / 2 ^ 54 \<le> M / 2 ^ 53"
    using D2(1) by simp
  have EM: "M / 2 ^ 53 + E \<le> allowance x t"
    unfolding al E_def using M0 by simp
  have E4: "E \<le> allowance x t"
    using EM M0 by (simp; linarith)
  have i: "\<bar>y - t\<bar> \<le> 4 / 5 * D + allowance x t"
    using ez zabs whi d54 EM by linarith
  have ii: "\<bar>y - t\<bar> < D" if "5 * allowance x t < D"
    using i that by linarith
  have iii: "y < t" if "5 * allowance x t < D" "x < t"
  proof -
    have "z \<le> 0" unfolding z_def using that(2) w0 by (intro mult_nonneg_nonpos) simp_all
    then have "z = - \<bar>z\<bar>" by linarith
    then show ?thesis using ez zabs wlo E4 that(1) by linarith
  qed
  have iv: "t < y" if "5 * allowance x t < D" "t < x"
  proof -
    have "0 \<le> z" unfolding z_def using that(2) w0 by (intro mult_nonneg_nonneg) simp_all
    then have "z = \<bar>z\<bar>" by linarith
    then show ?thesis using ez zabs wlo E4 that(1) by linarith
  qed
  show ?thesis
    unfolding val smoothed_toward_def using i ii iii iv by (simp add: D_def)
qed

text \<open>
  C5, as the claim states it, fails in the arithmetic of the code. A fresh object
  stores the amplitude 0.2; \<^verbatim>\<open>set_parameters\<close> called with the stored values as the
  target computes \<^verbatim>\<open>0.2 * (1 - 0.2) + 0.2 * 0.2\<close> in binary64, which is
  0.20000000000000004: the stored value leaves the target it was on, to the far side.
\<close>

theorem set_parameters_f64_rounding:
  "amplitude_f64 init_f64 = Finite (7205759403792794 / 2 ^ 55)
   \<and> amplitude_f64 (set_parameters_f64 init_f64
         (freq_f64 init_f64) (amplitude_f64 init_f64) (roomSize_f64 init_f64))
       = Finite (7205759403792795 / 2 ^ 55)"
proof -
  have a: "amplitude_f64 init_f64 = Finite (3602879701896397 / 2 ^ 54)"
    unfolding init_f64_def using alpha64_value by (simp add: alpha64_def)
  have p1: "fmul binary64 (Finite (3602879701896397 / 2 ^ 54)) (Finite (3602879701896397 / 2 ^ 52))
      = Finite (1441151880758559 / 2 ^ 53)"
    unfolding fmul.simps by (rule rnd_eqI [OF round64_p1]) (simp add: binary64_def)
  have p2: "fmul binary64 (Finite (3602879701896397 / 2 ^ 54)) (Finite (3602879701896397 / 2 ^ 54))
      = Finite (1441151880758559 / 2 ^ 55)"
    unfolding fmul.simps by (rule rnd_eqI [OF round64_p2]) (simp add: binary64_def)
  have p3: "fadd binary64 (Finite (1441151880758559 / 2 ^ 53)) (Finite (1441151880758559 / 2 ^ 55)) = Finite (7205759403792795 / 2 ^ 55)"
    unfolding fadd.simps by (rule rnd_eqI [OF round64_p3]) (simp add: binary64_def)
  have "smoothed_f64 (Finite (3602879701896397 / 2 ^ 54)) (Finite (3602879701896397 / 2 ^ 54))
      = Finite (7205759403792795 / 2 ^ 55)"
    by (simp only: smoothed_f64_def alpha64_value one_minus_alpha64 p1 p2 p3)
  then have "amplitude_f64 (set_parameters_f64 init_f64
         (freq_f64 init_f64) (amplitude_f64 init_f64) (roomSize_f64 init_f64))
       = Finite (7205759403792795 / 2 ^ 55)"
    by (simp add: set_parameters_f64_def a)
  moreover have "amplitude_f64 init_f64 = Finite (7205759403792794 / 2 ^ 55)"
    by (simp add: a)
  ultimately show ?thesis by blast
qed

text \<open>
  C5, amended: for finite stored values and targets of magnitude at most \<open>2 ^ 1000\<close>,
  one call of \<^verbatim>\<open>set_parameters\<close> in binary64 leaves each field finite, at a distance
  from its target of at most 4/5 of the old distance plus the rounding allowance
  \<open>max |x| |t| / 2 ^ 50 + 1 / 2 ^ 1073\<close>; and wherever the old distance exceeds 5
  allowances the new value is strictly closer to the target and on the same side of it.
\<close>

theorem set_parameters_f64_contracts:
  assumes "\<bar>x\<^sub>f\<bar> \<le> 2 ^ 1000" "\<bar>f\<bar> \<le> 2 ^ 1000" "\<bar>x\<^sub>a\<bar> \<le> 2 ^ 1000" "\<bar>a\<bar> \<le> 2 ^ 1000"
    "\<bar>x\<^sub>r\<bar> \<le> 2 ^ 1000" "\<bar>r\<bar> \<le> 2 ^ 1000"
  shows "smoothed_toward x\<^sub>f f (freq_f64 (set_parameters_f64
           \<lparr>freq_f64 = Finite x\<^sub>f, amplitude_f64 = Finite x\<^sub>a, roomSize_f64 = Finite x\<^sub>r\<rparr>
           (Finite f) (Finite a) (Finite r)))
       \<and> smoothed_toward x\<^sub>a a (amplitude_f64 (set_parameters_f64
           \<lparr>freq_f64 = Finite x\<^sub>f, amplitude_f64 = Finite x\<^sub>a, roomSize_f64 = Finite x\<^sub>r\<rparr>
           (Finite f) (Finite a) (Finite r)))
       \<and> smoothed_toward x\<^sub>r r (roomSize_f64 (set_parameters_f64
           \<lparr>freq_f64 = Finite x\<^sub>f, amplitude_f64 = Finite x\<^sub>a, roomSize_f64 = Finite x\<^sub>r\<rparr>
           (Finite f) (Finite a) (Finite r)))"
  using smoothed_f64_toward [OF assms(1,2)] smoothed_f64_toward [OF assms(3,4)]
    smoothed_f64_toward [OF assms(5,6)]
  by (simp add: set_parameters_f64_def)

theorem set_parameters_f64_contracts_witness:
  "\<bar>440 :: real\<bar> \<le> 2 ^ 1000 \<and> \<bar>880 :: real\<bar> \<le> 2 ^ 1000 \<and> \<bar>1 / 4 :: real\<bar> \<le> 2 ^ 1000
   \<and> \<bar>1 / 2 :: real\<bar> \<le> 2 ^ 1000 \<and> \<bar>1 :: real\<bar> \<le> 2 ^ 1000
   \<and> smoothed_toward 440 880 (freq_f64 (set_parameters_f64
         \<lparr>freq_f64 = Finite 440, amplitude_f64 = Finite (1 / 4), roomSize_f64 = Finite (1 / 2)\<rparr>
         (Finite 880) (Finite (1 / 2)) (Finite 1)))
   \<and> (case freq_f64 (set_parameters_f64
         \<lparr>freq_f64 = Finite 440, amplitude_f64 = Finite (1 / 4), roomSize_f64 = Finite (1 / 2)\<rparr>
         (Finite 880) (Finite (1 / 2)) (Finite 1)) of
        Finite y \<Rightarrow> \<bar>y - 880\<bar> < 440 \<and> y < 880 | _ \<Rightarrow> False)"
proof -
  have h: "\<bar>440 :: real\<bar> \<le> 2 ^ 1000" "\<bar>880 :: real\<bar> \<le> 2 ^ 1000" "\<bar>1 / 4 :: real\<bar> \<le> 2 ^ 1000"
    "\<bar>1 / 2 :: real\<bar> \<le> 2 ^ 1000" "\<bar>1 / 2 :: real\<bar> \<le> 2 ^ 1000" "\<bar>1 :: real\<bar> \<le> 2 ^ 1000"
    by simp_all
  note t = set_parameters_f64_contracts [OF h]
  have far: "5 * allowance 440 880 < \<bar>440 - 880 :: real\<bar>"
    by (simp add: allowance_def)
  have "smoothed_toward 440 880 (freq_f64 (set_parameters_f64
         \<lparr>freq_f64 = Finite 440, amplitude_f64 = Finite (1 / 4), roomSize_f64 = Finite (1 / 2)\<rparr>
         (Finite 880) (Finite (1 / 2)) (Finite 1)))"
    using t by blast
  moreover from this far have "case freq_f64 (set_parameters_f64
         \<lparr>freq_f64 = Finite 440, amplitude_f64 = Finite (1 / 4), roomSize_f64 = Finite (1 / 2)\<rparr>
         (Finite 880) (Finite (1 / 2)) (Finite 1)) of
        Finite y \<Rightarrow> \<bar>y - 880\<bar> < 440 \<and> y < 880 | _ \<Rightarrow> False"
    unfolding smoothed_toward_def by (auto split: pyfloat.splits)
  ultimately show ?thesis using h by blast
qed

section \<open>Properties of the reverb in machine arithmetic\<close>

lemma assign_from_positive_delay:
  assumes "0 < k" "k < int (length signal)"
  shows "assign_from (replicate (length signal) z) k (map f (slice_upto signal (- k)))
         = Inr (replicate (nat k) z @ map f (take (length signal - nat k) signal))"
proof -
  have b1: "slice_bound k (length signal) = nat k"
    using assms by (simp add: slice_bound_def)
  have b2: "slice_bound (- k) (length signal) = length signal - nat k"
    using assms by (simp add: slice_bound_def)
  show ?thesis
    using assms by (simp add: assign_from_def slice_upto_def b1 b2 Let_def)
qed

lemma echo_sample_nth:
  assumes "0 < k" "k < int (length signal)" "n < length signal"
  shows "(replicate (nat k) (np_zero A)
            @ map (\<lambda>x. np_scale A x decay) (take (length signal - nat k) signal)) ! n
         = echo_sample A signal k decay n"
proof (cases "k \<le> int n")
  case True
  then have "nat k \<le> n" by simp
  moreover have "n - nat k < length signal - nat k" using assms True by linarith
  moreover have "nat (int n - k) = n - nat k" using assms True by linarith
  ultimately show ?thesis
    using assms True by (simp add: nth_append echo_sample_def)
next
  case False
  then have "n < nat k" by simp
  then show ?thesis using False by (simp add: nth_append echo_sample_def)
qed

lemma reverb_loop_fp_positive_delay:
  assumes "1 \<le> d" "\<forall>i \<in> set todo. 1 \<le> i \<and> py_pow A df i = Inr (decay i)"
    "length acc = length signal"
  shows "reverb_loop_fp A signal d df todo acc
         = Inr (map (\<lambda>n. foldl (np_add A) (acc ! n)
                    (map (\<lambda>i. echo_sample A signal (d * i) (decay i) n)
                       (filter (\<lambda>i. d * i < int (length signal)) todo)))
                [0..<length signal])"
  using assms(2,3)
proof (induction todo arbitrary: acc)
  case Nil
  have "map (\<lambda>n. acc ! n) [0..<length signal] = acc"
    using Nil.prems(2) by (metis map_nth)
  then show ?case by simp
next
  case (Cons i todo)
  have i: "1 \<le> i" and p: "py_pow A df i = Inr (decay i)"
    and rest: "\<forall>i \<in> set todo. 1 \<le> i \<and> py_pow A df i = Inr (decay i)"
    using Cons.prems by simp_all
  have k: "0 < d * i" using assms(1) i by simp
  show ?case
  proof (cases "d * i < int (length signal)")
    case True
    let ?echo = "replicate (nat (d * i)) (np_zero A) @
        map (\<lambda>x. np_scale A x (decay i)) (take (length signal - nat (d * i)) signal)"
    let ?acc = "map2 (np_add A) acc ?echo"
    have len: "length ?acc = length signal"
      using Cons.prems True k by simp
    have nth: "?acc ! n = np_add A (acc ! n) (echo_sample A signal (d * i) (decay i) n)"
      if "n < length signal" for n
    proof -
      have "?acc ! n = np_add A (acc ! n) (?echo ! n)"
        using that Cons.prems True k by (subst nth_map) (simp_all)
      then show ?thesis
        using echo_sample_nth [OF k True that, of A "decay i"] by simp
    qed
    have "reverb_loop_fp A signal d df (i # todo) acc = reverb_loop_fp A signal d df todo ?acc"
      using True p assign_from_positive_delay [OF k True, of "np_zero A" "\<lambda>x. np_scale A x (decay i)"]
      by (simp add: Let_def)
    also have "\<dots> = Inr (map (\<lambda>n. foldl (np_add A) (?acc ! n)
                    (map (\<lambda>i. echo_sample A signal (d * i) (decay i) n)
                       (filter (\<lambda>i. d * i < int (length signal)) todo)))
                [0..<length signal])"
      by (rule Cons.IH [OF rest len])
    also have "\<dots> = Inr (map (\<lambda>n. foldl (np_add A) (acc ! n)
                    (map (\<lambda>i. echo_sample A signal (d * i) (decay i) n)
                       (filter (\<lambda>i. d * i < int (length signal)) (i # todo))))
                [0..<length signal])"
      using True by (simp add: nth)
    finally show ?thesis .
  next
    case False
    have "reverb_loop_fp A signal d df (i # todo) acc = reverb_loop_fp A signal d df todo acc"
      using False p by (simp add: Let_def)
    also have "\<dots> = Inr (map (\<lambda>n. foldl (np_add A) (acc ! n)
                    (map (\<lambda>i. echo_sample A signal (d * i) (decay i) n)
                       (filter (\<lambda>i. d * i < int (length signal)) todo)))
                [0..<length signal])"
      using Cons.prems by (intro Cons.IH [OF rest]) simp
    finally show ?thesis using False by simp
  qed
qed

text \<open>
  C1, amended: whenever the delay that line 71 computes in binary64 is at least 1 and
  no power \<^verbatim>\<open>decay_factor ** i\<close> raises, \<^verbatim>\<open>apply_reverb\<close> returns the reference
  result in the arithmetic of the block, whatever that arithmetic is: each sample is the
  input sample with, for each echo index \<open>i\<close> in \<open>1..num_echoes\<close> whose delay fits the
  block and in this order, the sample \<open>delay_samples * i\<close> places earlier scaled by
  \<^verbatim>\<open>decay_factor ** i\<close> added to it (zero before the shift boundary), clipped.
\<close>

theorem apply_reverb_fp_reference:
  assumes "delay_samples_f64 reverb_time num_echoes (fs self) = Inr d" "1 \<le> d"
    and "\<forall>i \<in> set [1..num_echoes]. py_pow A decay_factor i = Inr (decay i)"
  shows "apply_reverb_fp A self signal reverb_time decay_factor num_echoes
         = Inr (reverb_ref_fp A signal d decay num_echoes)"
proof -
  have todo: "\<forall>i \<in> set [1..num_echoes]. 1 \<le> i \<and> py_pow A decay_factor i = Inr (decay i)"
    using assms(3) by simp
  have loop: "reverb_loop_fp A signal d decay_factor [1..num_echoes] signal
      = Inr (map (\<lambda>n. foldl (np_add A) (signal ! n)
                    (map (\<lambda>i. echo_sample A signal (d * i) (decay i) n)
                       (filter (\<lambda>i. d * i < int (length signal)) [1..num_echoes])))
                [0..<length signal])"
    by (rule reverb_loop_fp_positive_delay [OF assms(2) todo refl])
  show ?thesis
    by (simp only: apply_reverb_fp_def reverb_ref_fp_def assms(1) loop sum.case map_map o_def)
qed

text \<open>
  The roundings used at the inputs evaluated below: the conversions of 5 and 16000,
  the delays of the reverb times 0.0009375, 0.0003125 and -0.05, and the binary
  fractions that occur as powers, products and sums.
\<close>

lemma round64_5: "round_to binary64 (5) = 5"
proof -
  have "round_to binary64 (5) = of_int (5629499534213120) * 2 powi (- 50)"
  proof (rule round_to_eqI [where k = "2"])
    show "(- 50) = max ((2) - int (precision binary64) + 1) (emin binary64)"
      by (simp add: binary64_def)
    show "round_even ((5) / 2 powi (- 50)) = (5629499534213120)"
      by (rule round_even_eqI) (simp add: power_int_minus_divide)
  qed (simp_all add: power_int_minus_divide)
  then show ?thesis by (simp add: power_int_minus_divide)
qed

lemma round64_16000: "round_to binary64 (16000) = 16000"
proof -
  have "round_to binary64 (16000) = of_int (8796093022208000) * 2 powi (- 39)"
  proof (rule round_to_eqI [where k = "13"])
    show "(- 39) = max ((13) - int (precision binary64) + 1) (emin binary64)"
      by (simp add: binary64_def)
    show "round_even ((16000) / 2 powi (- 39)) = (8796093022208000)"
      by (rule round_even_eqI) (simp add: power_int_minus_divide)
  qed (simp_all add: power_int_minus_divide)
  then show ?thesis by (simp add: power_int_minus_divide)
qed

lemma round64_rt_a: "round_to binary64 (3 / 3200) = 1080863910568919 / 2 ^ 60"
proof -
  have "round_to binary64 (3 / 3200) = of_int (8646911284551352) * 2 powi (- 63)"
  proof (rule round_to_eqI [where k = "- 11"])
    show "(- 63) = max ((- 11) - int (precision binary64) + 1) (emin binary64)"
      by (simp add: binary64_def)
    show "round_even ((3 / 3200) / 2 powi (- 63)) = (8646911284551352)"
      by (rule round_even_eqI) (simp add: power_int_minus_divide)
  qed (simp_all add: power_int_minus_divide)
  then show ?thesis by (simp add: power_int_minus_divide)
qed

lemma round64_q_a: "round_to binary64 ((1080863910568919 / 2 ^ 60) / 5) = 3458764513820541 / 2 ^ 64"
proof -
  have "round_to binary64 ((1080863910568919 / 2 ^ 60) / 5) = of_int (6917529027641082) * 2 powi (- 65)"
  proof (rule round_to_eqI [where k = "- 13"])
    show "(- 65) = max ((- 13) - int (precision binary64) + 1) (emin binary64)"
      by (simp add: binary64_def)
    show "round_even (((1080863910568919 / 2 ^ 60) / 5) / 2 powi (- 65)) = (6917529027641082)"
      by (rule round_even_eqI) (simp add: power_int_minus_divide)
  qed (simp_all add: power_int_minus_divide)
  then show ?thesis by (simp add: power_int_minus_divide)
qed

lemma round64_p_a: "round_to binary64 ((3458764513820541 / 2 ^ 64) * 16000) = 3"
proof -
  have "round_to binary64 ((3458764513820541 / 2 ^ 64) * 16000) = of_int (6755399441055744) * 2 powi (- 51)"
  proof (rule round_to_eqI [where k = "1"])
    show "(- 51) = max ((1) - int (precision binary64) + 1) (emin binary64)"
      by (simp add: binary64_def)
    show "round_even (((3458764513820541 / 2 ^ 64) * 16000) / 2 powi (- 51)) = (6755399441055744)"
      by (rule round_even_eqI) (simp add: power_int_minus_divide)
  qed (simp_all add: power_int_minus_divide)
  then show ?thesis by (simp add: power_int_minus_divide)
qed

lemma round64_rt_b: "round_to binary64 (1 / 3200) = 5764607523034235 / 2 ^ 64"
proof -
  have "round_to binary64 (1 / 3200) = of_int (5764607523034235) * 2 powi (- 64)"
  proof (rule round_to_eqI [where k = "- 12"])
    show "(- 64) = max ((- 12) - int (precision binary64) + 1) (emin binary64)"
      by (simp add: binary64_def)
    show "round_even ((1 / 3200) / 2 powi (- 64)) = (5764607523034235)"
      by (rule round_even_eqI) (simp add: power_int_minus_divide)
  qed (simp_all add: power_int_minus_divide)
  then show ?thesis by (simp add: power_int_minus_divide)
qed

lemma round64_q_b: "round_to binary64 ((5764607523034235 / 2 ^ 64) / 5) = 1152921504606847 / 2 ^ 64"
proof -
  have "round_to binary64 ((5764607523034235 / 2 ^ 64) / 5) = of_int (4611686018427388) * 2 powi (- 66)"
  proof (rule round_to_eqI [where k = "- 14"])
    show "(- 66) = max ((- 14) - int (precision binary64) + 1) (emin binary64)"
      by (simp add: binary64_def)
    show "round_even (((5764607523034235 / 2 ^ 64) / 5) / 2 powi (- 66)) = (4611686018427388)"
      by (rule round_even_eqI) (simp add: power_int_minus_divide)
  qed (simp_all add: power_int_minus_divide)
  then show ?thesis by (simp add: power_int_minus_divide)
qed

lemma round64_p_b: "round_to binary64 ((1152921504606847 / 2 ^ 64) * 16000) = 1"
proof -
  have "round_to binary64 ((1152921504606847 / 2 ^ 64) * 16000) = of_int (4503599627370496) * 2 powi (- 52)"
  proof (rule round_to_eqI [where k = "0"])
    show "(- 52) = max ((0) - int (precision binary64) + 1) (emin binary64)"
      by (simp add: binary64_def)
    show "round_even (((1152921504606847 / 2 ^ 64) * 16000) / 2 powi (- 52)) = (4503599627370496)"
      by (rule round_even_eqI) (simp add: power_int_minus_divide)
  qed (simp_all add: power_int_minus_divide)
  then show ?thesis by (simp add: power_int_minus_divide)
qed

lemma round64_rt_c: "round_to binary64 (- (1 / 20)) = - (3602879701896397 / 2 ^ 56)"
proof -
  have "round_to binary64 (- (1 / 20)) = of_int (- 7205759403792794) * 2 powi (- 57)"
  proof (rule round_to_eqI [where k = "- 5"])
    show "(- 57) = max ((- 5) - int (precision binary64) + 1) (emin binary64)"
      by (simp add: binary64_def)
    show "round_even ((- (1 / 20)) / 2 powi (- 57)) = (- 7205759403792794)"
      by (rule round_even_eqI) (simp add: power_int_minus_divide)
  qed (simp_all add: power_int_minus_divide)
  then show ?thesis by (simp add: power_int_minus_divide)
qed

lemma round64_q_c: "round_to binary64 ((- (3602879701896397 / 2 ^ 56)) / 5) = - (5764607523034235 / 2 ^ 59)"
proof -
  have "round_to binary64 ((- (3602879701896397 / 2 ^ 56)) / 5) = of_int (- 5764607523034235) * 2 powi (- 59)"
  proof (rule round_to_eqI [where k = "- 7"])
    show "(- 59) = max ((- 7) - int (precision binary64) + 1) (emin binary64)"
      by (simp add: binary64_def)
    show "round_even (((- (3602879701896397 / 2 ^ 56)) / 5) / 2 powi (- 59)) = (- 5764607523034235)"
      by (rule round_even_eqI) (simp add: power_int_minus_divide)
  qed (simp_all add: power_int_minus_divide)
  then show ?thesis by (simp add: power_int_minus_divide)
qed

lemma round64_p_c: "round_to binary64 ((- (5764607523034235 / 2 ^ 59)) * 16000) = - 160"
proof -
  have "round_to binary64 ((- (5764607523034235 / 2 ^ 59)) * 16000) = of_int (- 5629499534213120) * 2 powi (- 45)"
  proof (rule round_to_eqI [where k = "7"])
    show "(- 45) = max ((7) - int (precision binary64) + 1) (emin binary64)"
      by (simp add: binary64_def)
    show "round_even (((- (5764607523034235 / 2 ^ 59)) * 16000) / 2 powi (- 45)) = (- 5629499534213120)"
      by (rule round_even_eqI) (simp add: power_int_minus_divide)
  qed (simp_all add: power_int_minus_divide)
  then show ?thesis by (simp add: power_int_minus_divide)
qed

lemma round64_d2: "round_to binary64 (1 / 2) = 1 / 2"
proof -
  have "round_to binary64 (1 / 2) = of_int (4503599627370496) * 2 powi (- 53)"
  proof (rule round_to_eqI [where k = "- 1"])
    show "(- 53) = max ((- 1) - int (precision binary64) + 1) (emin binary64)"
      by (simp add: binary64_def)
    show "round_even ((1 / 2) / 2 powi (- 53)) = (4503599627370496)"
      by (rule round_even_eqI) (simp add: power_int_minus_divide)
  qed (simp_all add: power_int_minus_divide)
  then show ?thesis by (simp add: power_int_minus_divide)
qed

lemma round64_d4: "round_to binary64 (1 / 4) = 1 / 4"
proof -
  have "round_to binary64 (1 / 4) = of_int (4503599627370496) * 2 powi (- 54)"
  proof (rule round_to_eqI [where k = "- 2"])
    show "(- 54) = max ((- 2) - int (precision binary64) + 1) (emin binary64)"
      by (simp add: binary64_def)
    show "round_even ((1 / 4) / 2 powi (- 54)) = (4503599627370496)"
      by (rule round_even_eqI) (simp add: power_int_minus_divide)
  qed (simp_all add: power_int_minus_divide)
  then show ?thesis by (simp add: power_int_minus_divide)
qed

lemma round64_d8: "round_to binary64 (1 / 8) = 1 / 8"
proof -
  have "round_to binary64 (1 / 8) = of_int (4503599627370496) * 2 powi (- 55)"
  proof (rule round_to_eqI [where k = "- 3"])
    show "(- 55) = max ((- 3) - int (precision binary64) + 1) (emin binary64)"
      by (simp add: binary64_def)
    show "round_even ((1 / 8) / 2 powi (- 55)) = (4503599627370496)"
      by (rule round_even_eqI) (simp add: power_int_minus_divide)
  qed (simp_all add: power_int_minus_divide)
  then show ?thesis by (simp add: power_int_minus_divide)
qed

lemma round64_d16: "round_to binary64 (1 / 16) = 1 / 16"
proof -
  have "round_to binary64 (1 / 16) = of_int (4503599627370496) * 2 powi (- 56)"
  proof (rule round_to_eqI [where k = "- 4"])
    show "(- 56) = max ((- 4) - int (precision binary64) + 1) (emin binary64)"
      by (simp add: binary64_def)
    show "round_even ((1 / 16) / 2 powi (- 56)) = (4503599627370496)"
      by (rule round_even_eqI) (simp add: power_int_minus_divide)
  qed (simp_all add: power_int_minus_divide)
  then show ?thesis by (simp add: power_int_minus_divide)
qed

lemma round64_d32: "round_to binary64 (1 / 32) = 1 / 32"
proof -
  have "round_to binary64 (1 / 32) = of_int (4503599627370496) * 2 powi (- 57)"
  proof (rule round_to_eqI [where k = "- 5"])
    show "(- 57) = max ((- 5) - int (precision binary64) + 1) (emin binary64)"
      by (simp add: binary64_def)
    show "round_even ((1 / 32) / 2 powi (- 57)) = (4503599627370496)"
      by (rule round_even_eqI) (simp add: power_int_minus_divide)
  qed (simp_all add: power_int_minus_divide)
  then show ?thesis by (simp add: power_int_minus_divide)
qed

lemma round32_1_1: "round_to binary32 (1) = 1"
proof -
  have "round_to binary32 (1) = of_int (8388608) * 2 powi (- 23)"
  proof (rule round_to_eqI [where k = "0"])
    show "(- 23) = max ((0) - int (precision binary32) + 1) (emin binary32)"
      by (simp add: binary32_def)
    show "round_even ((1) / 2 powi (- 23)) = (8388608)"
      by (rule round_even_eqI) (simp add: power_int_minus_divide)
  qed (simp_all add: power_int_minus_divide)
  then show ?thesis by (simp add: power_int_minus_divide)
qed

lemma round32_1_2: "round_to binary32 (1 / 2) = 1 / 2"
proof -
  have "round_to binary32 (1 / 2) = of_int (8388608) * 2 powi (- 24)"
  proof (rule round_to_eqI [where k = "- 1"])
    show "(- 24) = max ((- 1) - int (precision binary32) + 1) (emin binary32)"
      by (simp add: binary32_def)
    show "round_even ((1 / 2) / 2 powi (- 24)) = (8388608)"
      by (rule round_even_eqI) (simp add: power_int_minus_divide)
  qed (simp_all add: power_int_minus_divide)
  then show ?thesis by (simp add: power_int_minus_divide)
qed

lemma round32_1_4: "round_to binary32 (1 / 4) = 1 / 4"
proof -
  have "round_to binary32 (1 / 4) = of_int (8388608) * 2 powi (- 25)"
  proof (rule round_to_eqI [where k = "- 2"])
    show "(- 25) = max ((- 2) - int (precision binary32) + 1) (emin binary32)"
      by (simp add: binary32_def)
    show "round_even ((1 / 4) / 2 powi (- 25)) = (8388608)"
      by (rule round_even_eqI) (simp add: power_int_minus_divide)
  qed (simp_all add: power_int_minus_divide)
  then show ?thesis by (simp add: power_int_minus_divide)
qed

lemma round32_1_8: "round_to binary32 (1 / 8) = 1 / 8"
proof -
  have "round_to binary32 (1 / 8) = of_int (8388608) * 2 powi (- 26)"
  proof (rule round_to_eqI [where k = "- 3"])
    show "(- 26) = max ((- 3) - int (precision binary32) + 1) (emin binary32)"
      by (simp add: binary32_def)
    show "round_even ((1 / 8) / 2 powi (- 26)) = (8388608)"
      by (rule round_even_eqI) (simp add: power_int_minus_divide)
  qed (simp_all add: power_int_minus_divide)
  then show ?thesis by (simp add: power_int_minus_divide)
qed

lemma round32_1_16: "round_to binary32 (1 / 16) = 1 / 16"
proof -
  have "round_to binary32 (1 / 16) = of_int (8388608) * 2 powi (- 27)"
  proof (rule round_to_eqI [where k = "- 4"])
    show "(- 27) = max ((- 4) - int (precision binary32) + 1) (emin binary32)"
      by (simp add: binary32_def)
    show "round_even ((1 / 16) / 2 powi (- 27)) = (8388608)"
      by (rule round_even_eqI) (simp add: power_int_minus_divide)
  qed (simp_all add: power_int_minus_divide)
  then show ?thesis by (simp add: power_int_minus_divide)
qed

lemma round32_1_32: "round_to binary32 (1 / 32) = 1 / 32"
proof -
  have "round_to binary32 (1 / 32) = of_int (8388608) * 2 powi (- 28)"
  proof (rule round_to_eqI [where k = "- 5"])
    show "(- 28) = max ((- 5) - int (precision binary32) + 1) (emin binary32)"
      by (simp add: binary32_def)
    show "round_even ((1 / 32) / 2 powi (- 28)) = (8388608)"
      by (rule round_even_eqI) (simp add: power_int_minus_divide)
  qed (simp_all add: power_int_minus_divide)
  then show ?thesis by (simp add: power_int_minus_divide)
qed

lemma round32_1_64: "round_to binary32 (1 / 64) = 1 / 64"
proof -
  have "round_to binary32 (1 / 64) = of_int (8388608) * 2 powi (- 29)"
  proof (rule round_to_eqI [where k = "- 6"])
    show "(- 29) = max ((- 6) - int (precision binary32) + 1) (emin binary32)"
      by (simp add: binary32_def)
    show "round_even ((1 / 64) / 2 powi (- 29)) = (8388608)"
      by (rule round_even_eqI) (simp add: power_int_minus_divide)
  qed (simp_all add: power_int_minus_divide)
  then show ?thesis by (simp add: power_int_minus_divide)
qed

lemma round32_3_4: "round_to binary32 (3 / 4) = 3 / 4"
proof -
  have "round_to binary32 (3 / 4) = of_int (12582912) * 2 powi (- 24)"
  proof (rule round_to_eqI [where k = "- 1"])
    show "(- 24) = max ((- 1) - int (precision binary32) + 1) (emin binary32)"
      by (simp add: binary32_def)
    show "round_even ((3 / 4) / 2 powi (- 24)) = (12582912)"
      by (rule round_even_eqI) (simp add: power_int_minus_divide)
  qed (simp_all add: power_int_minus_divide)
  then show ?thesis by (simp add: power_int_minus_divide)
qed

lemma round32_7_8: "round_to binary32 (7 / 8) = 7 / 8"
proof -
  have "round_to binary32 (7 / 8) = of_int (14680064) * 2 powi (- 24)"
  proof (rule round_to_eqI [where k = "- 1"])
    show "(- 24) = max ((- 1) - int (precision binary32) + 1) (emin binary32)"
      by (simp add: binary32_def)
    show "round_even ((7 / 8) / 2 powi (- 24)) = (14680064)"
      by (rule round_even_eqI) (simp add: power_int_minus_divide)
  qed (simp_all add: power_int_minus_divide)
  then show ?thesis by (simp add: power_int_minus_divide)
qed

lemma round32_15_16: "round_to binary32 (15 / 16) = 15 / 16"
proof -
  have "round_to binary32 (15 / 16) = of_int (15728640) * 2 powi (- 24)"
  proof (rule round_to_eqI [where k = "- 1"])
    show "(- 24) = max ((- 1) - int (precision binary32) + 1) (emin binary32)"
      by (simp add: binary32_def)
    show "round_even ((15 / 16) / 2 powi (- 24)) = (15728640)"
      by (rule round_even_eqI) (simp add: power_int_minus_divide)
  qed (simp_all add: power_int_minus_divide)
  then show ?thesis by (simp add: power_int_minus_divide)
qed

lemma round32_31_32: "round_to binary32 (31 / 32) = 31 / 32"
proof -
  have "round_to binary32 (31 / 32) = of_int (16252928) * 2 powi (- 24)"
  proof (rule round_to_eqI [where k = "- 1"])
    show "(- 24) = max ((- 1) - int (precision binary32) + 1) (emin binary32)"
      by (simp add: binary32_def)
    show "round_even ((31 / 32) / 2 powi (- 24)) = (16252928)"
      by (rule round_even_eqI) (simp add: power_int_minus_divide)
  qed (simp_all add: power_int_minus_divide)
  then show ?thesis by (simp add: power_int_minus_divide)
qed

lemma round32_63_64: "round_to binary32 (63 / 64) = 63 / 64"
proof -
  have "round_to binary32 (63 / 64) = of_int (16515072) * 2 powi (- 24)"
  proof (rule round_to_eqI [where k = "- 1"])
    show "(- 24) = max ((- 1) - int (precision binary32) + 1) (emin binary32)"
      by (simp add: binary32_def)
    show "round_even ((63 / 64) / 2 powi (- 24)) = (16515072)"
      by (rule round_even_eqI) (simp add: power_int_minus_divide)
  qed (simp_all add: power_int_minus_divide)
  then show ?thesis by (simp add: power_int_minus_divide)
qed

lemma emax_binary: "emax binary64 = 1024" "emax binary32 = 128"
  by (simp_all add: binary64_def binary32_def)

lemma rnd64_d2: "rnd binary64 (1 / 2) = Finite (1 / 2)"
  by (rule rnd_eqI [OF round64_d2]) (simp add: emax_binary)

lemma rnd64_d4: "rnd binary64 (1 / 4) = Finite (1 / 4)"
  by (rule rnd_eqI [OF round64_d4]) (simp add: emax_binary)

lemma rnd64_d8: "rnd binary64 (1 / 8) = Finite (1 / 8)"
  by (rule rnd_eqI [OF round64_d8]) (simp add: emax_binary)

lemma rnd64_d16: "rnd binary64 (1 / 16) = Finite (1 / 16)"
  by (rule rnd_eqI [OF round64_d16]) (simp add: emax_binary)

lemma rnd64_d32: "rnd binary64 (1 / 32) = Finite (1 / 32)"
  by (rule rnd_eqI [OF round64_d32]) (simp add: emax_binary)

lemma rnd32_1_1: "rnd binary32 (1) = Finite (1)"
  by (rule rnd_eqI [OF round32_1_1]) (simp add: emax_binary)

lemma rnd32_1_2: "rnd binary32 (1 / 2) = Finite (1 / 2)"
  by (rule rnd_eqI [OF round32_1_2]) (simp add: emax_binary)

lemma rnd32_1_4: "rnd binary32 (1 / 4) = Finite (1 / 4)"
  by (rule rnd_eqI [OF round32_1_4]) (simp add: emax_binary)

lemma rnd32_1_8: "rnd binary32 (1 / 8) = Finite (1 / 8)"
  by (rule rnd_eqI [OF round32_1_8]) (simp add: emax_binary)

lemma rnd32_1_16: "rnd binary32 (1 / 16) = Finite (1 / 16)"
  by (rule rnd_eqI [OF round32_1_16]) (simp add: emax_binary)

lemma rnd32_1_32: "rnd binary32 (1 / 32) = Finite (1 / 32)"
  by (rule rnd_eqI [OF round32_1_32]) (simp add: emax_binary)

lemma rnd32_1_64: "rnd binary32 (1 / 64) = Finite (1 / 64)"
  by (rule rnd_eqI [OF round32_1_64]) (simp add: emax_binary)

lemma rnd32_3_4: "rnd binary32 (3 / 4) = Finite (3 / 4)"
  by (rule rnd_eqI [OF round32_3_4]) (simp add: emax_binary)

lemma rnd32_7_8: "rnd binary32 (7 / 8) = Finite (7 / 8)"
  by (rule rnd_eqI [OF round32_7_8]) (simp add: emax_binary)

lemma rnd32_15_16: "rnd binary32 (15 / 16) = Finite (15 / 16)"
  by (rule rnd_eqI [OF round32_15_16]) (simp add: emax_binary)

lemma rnd32_31_32: "rnd binary32 (31 / 32) = Finite (31 / 32)"
  by (rule rnd_eqI [OF round32_31_32]) (simp add: emax_binary)

lemma rnd32_63_64: "rnd binary32 (63 / 64) = Finite (63 / 64)"
  by (rule rnd_eqI [OF round32_63_64]) (simp add: emax_binary)

lemmas rnd_dyadic = rnd_zero rnd64_d2 rnd64_d4 rnd64_d8 rnd64_d16 rnd64_d32 rnd32_1_1 rnd32_1_2 rnd32_1_4 rnd32_1_8 rnd32_1_16 rnd32_1_32 rnd32_1_64 rnd32_3_4 rnd32_7_8 rnd32_15_16 rnd32_31_32 rnd32_63_64


lemma float_of_int_5: "float_of_int 5 = Inr (Finite 5)"
  by (simp add: float_of_int_def Let_def round64_5 emax_binary)

lemma float_of_int_16000: "float_of_int 16000 = Inr (Finite 16000)"
  by (simp add: float_of_int_def Let_def round64_16000 emax_binary)

lemma delay_a: "delay_samples_f64 (Finite (1080863910568919 / 2 ^ 60)) 5 16000 = Inr (3)"
proof -
  have d1: "truediv (Finite (1080863910568919 / 2 ^ 60)) (Finite 5) = Inr (rnd binary64 ((1080863910568919 / 2 ^ 60) / 5))"
    by simp
  have d2: "rnd binary64 ((1080863910568919 / 2 ^ 60) / 5) = Finite (3458764513820541 / 2 ^ 64)"
    by (rule rnd_eqI [OF round64_q_a]) (simp add: emax_binary)
  have d3: "fmul binary64 (Finite (3458764513820541 / 2 ^ 64)) (Finite 16000) = rnd binary64 ((3458764513820541 / 2 ^ 64) * 16000)"
    by (simp only: fmul.simps)
  have d4: "rnd binary64 ((3458764513820541 / 2 ^ 64) * 16000) = Finite (3)"
    by (rule rnd_eqI [OF round64_p_a]) (simp add: emax_binary)
  have d5: "int_of_float (Finite (3)) = Inr (3)"
    by (simp add: py_int_def)
  show ?thesis
    by (simp only: delay_samples_f64_def float_of_int_5 float_of_int_16000 d1 d2 d3 d4 d5 sum.case)
qed

lemma delay_b: "delay_samples_f64 (Finite (5764607523034235 / 2 ^ 64)) 5 16000 = Inr (1)"
proof -
  have d1: "truediv (Finite (5764607523034235 / 2 ^ 64)) (Finite 5) = Inr (rnd binary64 ((5764607523034235 / 2 ^ 64) / 5))"
    by simp
  have d2: "rnd binary64 ((5764607523034235 / 2 ^ 64) / 5) = Finite (1152921504606847 / 2 ^ 64)"
    by (rule rnd_eqI [OF round64_q_b]) (simp add: emax_binary)
  have d3: "fmul binary64 (Finite (1152921504606847 / 2 ^ 64)) (Finite 16000) = rnd binary64 ((1152921504606847 / 2 ^ 64) * 16000)"
    by (simp only: fmul.simps)
  have d4: "rnd binary64 ((1152921504606847 / 2 ^ 64) * 16000) = Finite (1)"
    by (rule rnd_eqI [OF round64_p_b]) (simp add: emax_binary)
  have d5: "int_of_float (Finite (1)) = Inr (1)"
    by (simp add: py_int_def)
  show ?thesis
    by (simp only: delay_samples_f64_def float_of_int_5 float_of_int_16000 d1 d2 d3 d4 d5 sum.case)
qed

lemma delay_c: "delay_samples_f64 (Finite (- (3602879701896397 / 2 ^ 56))) 5 16000 = Inr (- 160)"
proof -
  have d1: "truediv (Finite (- (3602879701896397 / 2 ^ 56))) (Finite 5) = Inr (rnd binary64 ((- (3602879701896397 / 2 ^ 56)) / 5))"
    by simp
  have d2: "rnd binary64 ((- (3602879701896397 / 2 ^ 56)) / 5) = Finite (- (5764607523034235 / 2 ^ 59))"
    by (rule rnd_eqI [OF round64_q_c]) (simp add: emax_binary)
  have d3: "fmul binary64 (Finite (- (5764607523034235 / 2 ^ 59))) (Finite 16000) = rnd binary64 ((- (5764607523034235 / 2 ^ 59)) * 16000)"
    by (simp only: fmul.simps)
  have d4: "rnd binary64 ((- (5764607523034235 / 2 ^ 59)) * 16000) = Finite (- 160)"
    by (rule rnd_eqI [OF round64_p_c]) (simp add: emax_binary)
  have d5: "int_of_float (Finite (- 160)) = Inr (- 160)"
    by (simp add: py_int_def)
  show ?thesis
    by (simp only: delay_samples_f64_def float_of_int_5 float_of_int_16000 d1 d2 d3 d4 d5 sum.case)
qed

lemma delay_zero: "delay_samples_f64 (Finite 0) 5 16000 = Inr 0"
  by (simp add: delay_samples_f64_def float_of_int_5 float_of_int_16000 rnd_zero py_int_def)

lemma pow64_half:
  "pow64 (Finite (1 / 2)) 1 = Inr (Finite (1 / 2))"
  "pow64 (Finite (1 / 2)) 2 = Inr (Finite (1 / 4))"
  "pow64 (Finite (1 / 2)) 3 = Inr (Finite (1 / 8))"
  "pow64 (Finite (1 / 2)) 4 = Inr (Finite (1 / 16))"
  "pow64 (Finite (1 / 2)) 5 = Inr (Finite (1 / 32))"
  by (simp_all add: Let_def power_divide round64_d2 round64_d4 round64_d8 round64_d16 round64_d32
      emax_binary)

lemma fs_init: "fs init_audio = 16000"
  by (simp add: init_audio_def)

lemma eval_fp_delay_3:
  "apply_reverb_fp numpy_float32 init_audio [Finite 1, Finite 0, Finite 0, Finite 0]
      (Finite (1080863910568919 / 2 ^ 60)) (Finite (1 / 2)) 5
   = Inr [Finite 1, Finite 0, Finite 0, Finite (1 / 2)]"
  by (simp only: apply_reverb_fp_def fs_init delay_a sum.case)
     (simp add: upto_1_5 numpy_float32_def pow64_half
      assign_from_def slice_upto_def slice_bound_def Let_def rnd_dyadic clip_def
      del: pow64.simps)

lemma eval_fp_delay_0:
  "apply_reverb_fp numpy_float32 init_audio [Finite (1 / 2)] (Finite 0) (Finite (1 / 2)) 5
   = Inl ValueError"
  by (simp only: apply_reverb_fp_def fs_init delay_zero sum.case)
     (simp add: upto_1_5 numpy_float32_def pow64_half
      assign_from_def slice_upto_def slice_bound_def Let_def rnd_dyadic clip_def
      del: pow64.simps)

lemma eval_fp_delay_negative:
  "apply_reverb_fp numpy_float32 init_audio [Finite (1 / 2)]
      (Finite (- (3602879701896397 / 2 ^ 56))) (Finite (1 / 2)) 5
   = Inr [Finite (63 / 64)]"
  by (simp only: apply_reverb_fp_def fs_init delay_c sum.case)
     (simp add: upto_1_5 numpy_float32_def pow64_half
      assign_from_def slice_upto_def slice_bound_def Let_def rnd_dyadic clip_def
      del: pow64.simps)

lemma eval_ref_delay_2: "reverb_ref (fs init_audio) [1, 0, 0, 0] (1080863910568919 / 2 ^ 60) (1 / 2) 5
    = [1, 0, 1 / 2, 0]"
  by code_simp

lemma eval_ref_negative: "reverb_ref (fs init_audio) [1 / 2] (- (3602879701896397 / 2 ^ 56)) (1 / 2) 5
    = [1 / 2]"
  by code_simp

lemma eval_ref_delay_0: "reverb_ref (fs init_audio) [1 / 2] 0 (1 / 2) 5 = [63 / 64]"
  by code_simp


text \<open>
  C1, as the claim states it, fails, at three kinds of reverb time, each with
  \<^verbatim>\<open>decay_factor = 0.5\<close> and 5 echoes on a \<^verbatim>\<open>float32\<close> block.
  At 0.0009375 the code's delay \<^verbatim>\<open>int((0.0009375 / 5) * 16000)\<close> is 3, because the
  rounded product is exactly 3.0, while the floor of the exact product is 2: the echo
  of the impulse lands on sample 3, the reference has it on sample 2.
  At 0 the reference is defined and the code raises \<^verbatim>\<open>ValueError\<close>.
  At -0.05 the delay is -160; Python's negative slice bounds put every echo at offset
  0, and the result is 63/64 where the reference gives 1/2.
\<close>

theorem apply_reverb_fp_differs:
  "rnd binary64 (3 / 3200) = Finite (1080863910568919 / 2 ^ 60)
   \<and> apply_reverb_fp numpy_float32 init_audio [Finite 1, Finite 0, Finite 0, Finite 0]
        (Finite (1080863910568919 / 2 ^ 60)) (Finite (1 / 2)) 5
      = Inr [Finite 1, Finite 0, Finite 0, Finite (1 / 2)]
   \<and> reverb_ref (fs init_audio) [1, 0, 0, 0] (1080863910568919 / 2 ^ 60) (1 / 2) 5
      = [1, 0, 1 / 2, 0]
   \<and> apply_reverb_fp numpy_float32 init_audio [Finite (1 / 2)] (Finite 0) (Finite (1 / 2)) 5
      = Inl ValueError
   \<and> reverb_ref (fs init_audio) [1 / 2] 0 (1 / 2) 5 = [63 / 64]
   \<and> rnd binary64 (- (1 / 20)) = Finite (- (3602879701896397 / 2 ^ 56))
   \<and> apply_reverb_fp numpy_float32 init_audio [Finite (1 / 2)]
        (Finite (- (3602879701896397 / 2 ^ 56))) (Finite (1 / 2)) 5
      = Inr [Finite (63 / 64)]
   \<and> reverb_ref (fs init_audio) [1 / 2] (- (3602879701896397 / 2 ^ 56)) (1 / 2) 5 = [1 / 2]"
proof -
  have a: "rnd binary64 (3 / 3200) = Finite (1080863910568919 / 2 ^ 60)"
    by (rule rnd_eqI [OF round64_rt_a]) (simp add: emax_binary)
  have c: "rnd binary64 (- (1 / 20)) = Finite (- (3602879701896397 / 2 ^ 56))"
    by (rule rnd_eqI [OF round64_rt_c]) (simp add: emax_binary)
  show ?thesis
    using a c eval_fp_delay_3 eval_ref_delay_2 eval_fp_delay_0 eval_ref_delay_0
      eval_fp_delay_negative eval_ref_negative by blast
qed

lemma ref_fp_b:
  "reverb_ref_fp numpy_float32 [Finite 1, Finite 0, Finite 0, Finite 0] 1
      (\<lambda>i. Finite ((1 / 2) ^ nat i)) 5
   = [Finite 1, Finite (1 / 2), Finite (1 / 4), Finite (1 / 8)]"
  by (simp add: reverb_ref_fp_def echo_sample_def upto_1_5 numpy_float32_def rnd_dyadic
      clip_def power_divide eval_nat_numeral)

theorem apply_reverb_fp_reference_witness:
  "delay_samples_f64 (Finite (5764607523034235 / 2 ^ 64)) 5 (fs init_audio) = Inr 1
   \<and> py_pow numpy_float32 (Finite (1 / 2)) 1 = Inr (Finite (1 / 2))
   \<and> py_pow numpy_float32 (Finite (1 / 2)) 2 = Inr (Finite (1 / 4))
   \<and> py_pow numpy_float32 (Finite (1 / 2)) 3 = Inr (Finite (1 / 8))
   \<and> py_pow numpy_float32 (Finite (1 / 2)) 4 = Inr (Finite (1 / 16))
   \<and> py_pow numpy_float32 (Finite (1 / 2)) 5 = Inr (Finite (1 / 32))
   \<and> apply_reverb_fp numpy_float32 init_audio [Finite 1, Finite 0, Finite 0, Finite 0]
        (Finite (5764607523034235 / 2 ^ 64)) (Finite (1 / 2)) 5
      = Inr [Finite 1, Finite (1 / 2), Finite (1 / 4), Finite (1 / 8)]"
proof -
  have d: "delay_samples_f64 (Finite (5764607523034235 / 2 ^ 64)) 5 (fs init_audio) = Inr 1"
    by (simp only: fs_init delay_b)
  have p: "py_pow numpy_float32 (Finite (1 / 2)) 1 = Inr (Finite (1 / 2))"
    "py_pow numpy_float32 (Finite (1 / 2)) 2 = Inr (Finite (1 / 4))"
    "py_pow numpy_float32 (Finite (1 / 2)) 3 = Inr (Finite (1 / 8))"
    "py_pow numpy_float32 (Finite (1 / 2)) 4 = Inr (Finite (1 / 16))"
    "py_pow numpy_float32 (Finite (1 / 2)) 5 = Inr (Finite (1 / 32))"
    by (simp_all add: numpy_float32_def pow64_half del: pow64.simps)
  have all: "\<forall>i \<in> set [1..5]. py_pow numpy_float32 (Finite (1 / 2)) i
      = Inr ((\<lambda>i. Finite ((1 / 2) ^ nat i)) i)"
    using p by (simp add: upto_1_5 power_divide)
  have one: "(1::int) \<le> 1" by simp
  have "apply_reverb_fp numpy_float32 init_audio [Finite 1, Finite 0, Finite 0, Finite 0]
        (Finite (5764607523034235 / 2 ^ 64)) (Finite (1 / 2)) 5
      = Inr [Finite 1, Finite (1 / 2), Finite (1 / 4), Finite (1 / 8)]"
    using apply_reverb_fp_reference [OF d one all, of "[Finite 1, Finite 0, Finite 0, Finite 0]"]
    by (simp only: ref_fp_b)
  then show ?thesis using d p by blast
qed

section \<open>Properties of the sine generator\<close>

text \<open>
  As long as the phase counter does not wrap, two consecutive blocks are the block of
  double length.
\<close>

lemma raw_sine_nth:
  "i < frames \<Longrightarrow> raw_sine self frames ! i =
     amplitude self * sin (2 * pi * freq self *
        ((real i + real_of_int (phase_offset self)) / real_of_int (fs self)))"
  by (simp add: raw_sine_def)

lemma raw_sine_continuous_without_wrap:
  assumes "0 \<le> phase_offset self" "phase_offset self + int frames < fs self"
  shows "raw_sine self frames @ raw_sine (advance_phase self frames) frames
           = raw_sine self (2 * frames)"
proof -
  define g where "g = (\<lambda>i. amplitude self *
            sin (2 * pi * freq self *
                 ((real i + real_of_int (phase_offset self)) / real_of_int (fs self))))"
  have m: "(phase_offset self + int frames) mod fs self = phase_offset self + int frames"
    using assms by simp
  have second: "raw_sine (advance_phase self frames) frames = map (\<lambda>i. g (i + frames)) [0..<frames]"
    unfolding raw_sine_def advance_phase_def g_def
    by (simp only: audio_generation.simps m) (simp add: add.commute add.left_commute)
  have upt: "[0..<2 * frames] = [0..<frames] @ map (\<lambda>i. i + frames) [0..<frames]"
    using upt_add_eq_append [of 0 frames frames] map_add_upt [of frames frames]
    by (simp add: mult_2)
  have "raw_sine self (2 * frames) = map g [0..<2 * frames]"
    by (simp only: raw_sine_def g_def)
  also have "\<dots> = map g [0..<frames] @ map (\<lambda>i. g (i + frames)) [0..<frames]"
    by (simp only: upt map_append map_map o_def)
  also have "map g [0..<frames] = raw_sine self frames"
    by (simp only: raw_sine_def g_def)
  finally show ?thesis by (simp only: second)
qed

lemma sin_wrapped:
  "sin (2 * pi * (1625 / 4) * ((real 0 + real_of_int 384) / real_of_int 16000)) = - 1"
proof -
  have "2 * pi * (1625 / 4) * ((real 0 + real_of_int 384) / real_of_int 16000)
      = 20 * pi - pi / 2"
    by simp
  then show ?thesis
    by (simp only: sin_diff sin_npi_numeral cos_npi_numeral sin_pi_half cos_pi_half) simp
qed

lemma sin_unwrapped:
  "sin (2 * pi * (1625 / 4) * ((real 1024 + real_of_int 15360) / real_of_int 16000)) = 0"
proof -
  have "2 * pi * (1625 / 4) * ((real 1024 + real_of_int 15360) / real_of_int 16000)
      = 832 * pi"
    by simp
  then show ?thesis
    by (simp only: sin_npi_numeral)
qed

text \<open>
  C3, at the 16th block after a start (phase counter \<open>15 * 1024 = 15360\<close>) with
  \<open>freq = 406.25\<close> and the block size 1024: the counter wraps to
  \<open>(15360 + 1024) mod 16000 = 384\<close>, so the second block starts at
  \<open>0.2 * sin(2 pi * 406.25 * 384 / 16000) = 0.2 * sin(19.5 pi) = -0.2\<close>, while sample
  1024 of the block of length 2048 is
  \<open>0.2 * sin(2 pi * 406.25 * 16384 / 16000) = 0.2 * sin(832 pi) = 0\<close>. The wrap drops
  one second, which is a whole number of periods only when \<open>freq\<close> is an integer.
\<close>

theorem phase_wrap_breaks_continuity:
  "raw_sine (init_audio\<lparr>freq := 1625 / 4, phase_offset := 15360\<rparr>) 1024
      @ raw_sine (advance_phase (init_audio\<lparr>freq := 1625 / 4, phase_offset := 15360\<rparr>) 1024) 1024
     \<noteq> raw_sine (init_audio\<lparr>freq := 1625 / 4, phase_offset := 15360\<rparr>) 2048
   \<and> (raw_sine (init_audio\<lparr>freq := 1625 / 4, phase_offset := 15360\<rparr>) 1024
      @ raw_sine (advance_phase (init_audio\<lparr>freq := 1625 / 4, phase_offset := 15360\<rparr>) 1024) 1024)
     ! 1024 = - (2 / 10)
   \<and> raw_sine (init_audio\<lparr>freq := 1625 / 4, phase_offset := 15360\<rparr>) 2048 ! 1024 = 0
   \<and> phase_offset (advance_phase (init_audio\<lparr>freq := 1625 / 4, phase_offset := 15360\<rparr>) 1024) = 384"
proof -
  let ?s = "init_audio\<lparr>freq := 1625 / 4, phase_offset := 15360\<rparr>"
  have ph: "phase_offset (advance_phase ?s 1024) = 384"
    by (simp add: advance_phase_def init_audio_def)
  have adv: "advance_phase ?s 1024 = init_audio\<lparr>freq := 1625 / 4, phase_offset := 384\<rparr>"
    by (simp add: advance_phase_def init_audio_def)
  have l: "length (raw_sine ?s 1024) = 1024"
    by (simp add: raw_sine_def)
  have "(raw_sine ?s 1024 @ raw_sine (advance_phase ?s 1024) 1024) ! 1024
      = raw_sine (advance_phase ?s 1024) 1024 ! 0"
    by (simp add: nth_append l)
  also have "\<dots> = amplitude init_audio *
      sin (2 * pi * (1625 / 4) * ((real 0 + real_of_int 384) / real_of_int 16000))"
    unfolding adv by (subst raw_sine_nth) (simp_all add: init_audio_def)
  also have "\<dots> = - (2 / 10)"
    unfolding sin_wrapped by (simp add: init_audio_def)
  finally have a: "(raw_sine ?s 1024 @ raw_sine (advance_phase ?s 1024) 1024) ! 1024 = - (2 / 10)" .
  have "raw_sine ?s 2048 ! 1024 = amplitude init_audio *
      sin (2 * pi * (1625 / 4) * ((real 1024 + real_of_int 15360) / real_of_int 16000))"
    by (subst raw_sine_nth) (simp_all add: init_audio_def)
  also have "\<dots> = 0"
    unfolding sin_unwrapped by simp
  finally have b: "raw_sine ?s 2048 ! 1024 = 0" .
  have "raw_sine ?s 1024 @ raw_sine (advance_phase ?s 1024) 1024 \<noteq> raw_sine ?s 2048"
  proof
    assume "raw_sine ?s 1024 @ raw_sine (advance_phase ?s 1024) 1024 = raw_sine ?s 2048"
    then have "(raw_sine ?s 1024 @ raw_sine (advance_phase ?s 1024) 1024) ! 1024
        = raw_sine ?s 2048 ! 1024"
      by (rule arg_cong)
    then show False unfolding a b by simp
  qed
  then show ?thesis using a b ph by blast
qed

text \<open>
  The callback: stopped, it raises \<^verbatim>\<open>CallbackStop\<close>; running, with a room size
  whose delay is not 0, it writes a block of \<open>frames\<close> samples in \<open>[-1, 1]\<close> and
  advances the phase counter.
\<close>

lemma callback_block:
  assumes "running self"
    and "py_int ((roomSize self / real_of_int 5) * real_of_int (fs self)) \<noteq> 0"
  shows "\<exists>samples. callback self frames = Inr (samples, advance_phase self frames)
           \<and> length samples = frames \<and> (\<forall>x \<in> set samples. - 1 \<le> x \<and> x \<le> 1)"
proof -
  have five: "(5::int) \<noteq> 0" by simp
  obtain r where r: "apply_reverb self (raw_sine self frames) (roomSize self) (6 / 10) 5 = Inr r"
      and lr: "length r = length (raw_sine self frames)"
      and range: "\<forall>x \<in> set r. - 1 \<le> x \<and> x \<le> 1"
    using apply_reverb_nonzero_delay [OF five assms(2)] by blast
  have "callback self frames = Inr (r, advance_phase self frames)"
    using assms(1) by (simp only: callback_def r not_True_eq_False if_False sum.case)
  moreover have "length r = frames"
    using lr by (simp add: raw_sine_def)
  ultimately show ?thesis using range by blast
qed

lemma callback_stopped: "\<not> running self \<Longrightarrow> callback self frames = Inl CallbackStop"
  by (simp add: callback_def)

section \<open>Properties of starting and stopping\<close>

text \<open>
  C9. \<^verbatim>\<open>start_audio\<close> on an object that is running changes nothing: the flag stays,
  and no thread (hence no stream) is added. \<^verbatim>\<open>stop_audio\<close> on an object that is
  not running changes nothing.
\<close>

theorem start_stop_noop:
  "(running (audio p) \<longrightarrow> start_audio p = p \<and> threads (start_audio p) = threads p)
   \<and> (\<not> running (audio p) \<longrightarrow> stop_audio p = p)"
  by (auto simp: start_audio_def stop_audio_def)

theorem start_stop_noop_witness:
  "running (audio (start_audio init_process))
   \<and> start_audio (start_audio init_process) = start_audio init_process
   \<and> threads (start_audio (start_audio init_process)) = [Started]
   \<and> \<not> running (audio init_process)
   \<and> stop_audio init_process = init_process"
  using start_stop_noop [of "start_audio init_process"] start_stop_noop [of init_process]
  by (simp add: start_audio_def init_process_def init_audio_def)

text \<open>
  C8, as the claim states it, fails: \<^verbatim>\<open>start_audio\<close> sets \<^verbatim>\<open>running\<close> before the
  thread opens the device, and nothing resets it when the open fails. From a fresh
  object, after \<^verbatim>\<open>start_audio\<close> and the failed open in thread 0, \<^verbatim>\<open>running\<close> is true.
\<close>

theorem device_failure_leaves_running:
  "running (audio (audioGen_open False 0 (start_audio init_process)))"
  by (simp add: audioGen_open_def start_audio_def init_process_def init_audio_def)

text \<open>
  C8, amended: when the object is stopped and the device cannot be opened,
  \<^verbatim>\<open>start_audio\<close> returns normally with \<^verbatim>\<open>running\<close> set; the error is raised in
  the new audio thread, which ends with it, and \<^verbatim>\<open>running\<close> stays true. The stored
  \<open>freq\<close>, \<open>amplitude\<close> and \<open>roomSize\<close> are as before.
\<close>

theorem device_failure_keeps_parameters:
  "\<not> running (audio p) \<Longrightarrow>
     running (audio (audioGen_open False (length (threads p)) (start_audio p)))
     \<and> threads (audioGen_open False (length (threads p)) (start_audio p))
         = threads p @ [Raised PortAudioError]
     \<and> freq (audio (audioGen_open False (length (threads p)) (start_audio p))) = freq (audio p)
     \<and> amplitude (audio (audioGen_open False (length (threads p)) (start_audio p)))
         = amplitude (audio p)
     \<and> roomSize (audio (audioGen_open False (length (threads p)) (start_audio p)))
         = roomSize (audio p)"
  by (simp add: audioGen_open_def start_audio_def)

theorem device_failure_keeps_parameters_witness:
  "\<not> running (audio init_process)
   \<and> threads (audioGen_open False 0 (start_audio init_process)) = [Raised PortAudioError]
   \<and> freq (audio (audioGen_open False 0 (start_audio init_process))) = 440
   \<and> amplitude (audio (audioGen_open False 0 (start_audio init_process))) = 2 / 10
   \<and> roomSize (audio (audioGen_open False 0 (start_audio init_process))) = 3 / 10"
proof -
  have stopped: "\<not> running (audio init_process)"
    by (simp add: init_process_def init_audio_def)
  show ?thesis
    using stopped device_failure_keeps_parameters [OF stopped]
    by (simp add: init_process_def init_audio_def)
qed

end
